theory Spec2Isabelle
  imports Complex_Main "HOL-Library.Word" "HOL-Library.Sublist"
begin

section \<open>JavaScript strings\<close>

text \<open>
  A JavaScript string is a sequence of 16-bit code units. ASCII literals of \<^verbatim>\<open>script.js\<close>
  are written through \<open>js\<close>; the two non-ASCII characters of its string literals are given
  by their code units: the em dash U+2014 of the fallback reply and the emoji U+1F495
  (surrogate pair D83D DC95) of the setup request.
\<close>

type_synonym js_string = "16 word list"

definition js :: "string \<Rightarrow> js_string" where
  "js s = map (\<lambda>c. word_of_nat (of_char c)) s"

text \<open>White space and line terminators, as \<^verbatim>\<open>String.prototype.trim\<close> and the
  numeric conversion of strings strip them.\<close>

definition is_whitespace :: "16 word \<Rightarrow> bool" where
  "is_whitespace c \<longleftrightarrow>
     c = 0x09 \<or> c = 0x0A \<or> c = 0x0B \<or> c = 0x0C \<or> c = 0x0D \<or> c = 0x20 \<or> c = 0xA0 \<or>
     c = 0x1680 \<or> (0x2000 \<le> c \<and> c \<le> 0x200A) \<or> c = 0x2028 \<or> c = 0x2029 \<or>
     c = 0x202F \<or> c = 0x205F \<or> c = 0x3000 \<or> c = 0xFEFF"

definition trim :: "js_string \<Rightarrow> js_string" where
  "trim s = rev (dropWhile is_whitespace (rev (dropWhile is_whitespace s)))"

text \<open>\<^verbatim>\<open>text.replace(/~~/g, '')\<close>: one pass from the left, every match of two tildes
  dropped, matches not overlapping.\<close>

fun remove_tildes :: "js_string \<Rightarrow> js_string" where
  "remove_tildes (a # b # r) =
     (if a = 0x7E \<and> b = 0x7E then remove_tildes r else a # remove_tildes (b # r))"
| "remove_tildes s = s"

text \<open>\<^verbatim>\<open>s.split('T')[0]\<close>: the part of \<open>s\<close> before its first \<^verbatim>\<open>T\<close>.\<close>

definition before_T :: "js_string \<Rightarrow> js_string" where
  "before_T s = takeWhile (\<lambda>c. c \<noteq> 0x54) s"

section \<open>JavaScript values\<close>

text \<open>
  \<open>Fin q\<close> is the Number whose exact value is the rational \<open>q\<close> (negative zero is
  identified with zero: the program only tests numbers for truthiness and converts them
  to strings, and both agree on the two zeros).
\<close>

datatype js_number = NaN | PosInfinity | NegInfinity | Fin rat

text \<open>The values \<^verbatim>\<open>JSON.parse\<close> produces, and \<^verbatim>\<open>undefined\<close> for a missing
  property. An object is the list of its own properties, keys distinct.\<close>

datatype js_value =
    JUndefined
  | JNull
  | JBool bool
  | JNum js_number
  | JStr js_string
  | JArr "js_value list"
  | JObj "(js_string \<times> js_value) list"

text \<open>The outcome of evaluating an expression or awaiting a promise: a value, a thrown
  error (kept as its \<^verbatim>\<open>message\<close>), or a promise that never settles.\<close>

datatype 'a completion = Normal 'a | Throw js_string | Pending

datatype 'a promise = Fulfilled 'a | Rejected js_string | Unsettled

definition await :: "'a promise \<Rightarrow> 'a completion" where
  "await p = (case p of Fulfilled v \<Rightarrow> Normal v | Rejected m \<Rightarrow> Throw m | Unsettled \<Rightarrow> Pending)"

definition bind :: "'a completion \<Rightarrow> ('a \<Rightarrow> 'b completion) \<Rightarrow> 'b completion" where
  "bind c f = (case c of Normal v \<Rightarrow> f v | Throw m \<Rightarrow> Throw m | Pending \<Rightarrow> Pending)"

text \<open>
  What the script takes from the engine and the page and does not define itself:
  whether the \<^verbatim>\<open>marked\<close> library is loaded and what \<^verbatim>\<open>marked.parse\<close> returns (taken
  as a function of the text), the message texts of the engine's own \<^verbatim>\<open>TypeError\<close>s,
  and floating point: the Number nearest to a rational that is not an integer of
  magnitude at most \<open>2^53\<close>, and the decimal text of such a Number.
\<close>

record host =
  marked :: "(js_string \<Rightarrow> js_string) option"
  nullReadMessage :: "js_value \<Rightarrow> js_string \<Rightarrow> js_string"
  notFunctionMessage :: "js_value \<Rightarrow> js_string"
  toPrimitiveMessage :: js_string
  numberValue :: "rat \<Rightarrow> js_number"
  numberToString :: "rat \<Rightarrow> js_string"

definition truthy :: "js_value \<Rightarrow> bool" where
  "truthy v =
     (case v of
        JUndefined \<Rightarrow> False
      | JNull \<Rightarrow> False
      | JBool b \<Rightarrow> b
      | JNum n \<Rightarrow> (case n of NaN \<Rightarrow> False | Fin q \<Rightarrow> q \<noteq> 0 | _ \<Rightarrow> True)
      | JStr s \<Rightarrow> s \<noteq> []
      | JArr _ \<Rightarrow> True
      | JObj _ \<Rightarrow> True)"

definition nullish :: "js_value \<Rightarrow> bool" where
  "nullish v \<longleftrightarrow> v = JUndefined \<or> v = JNull"

text \<open>
  \<open>own_property v k\<close> is what the read \<^verbatim>\<open>v.k\<close> gives on a value other than
  \<^verbatim>\<open>null\<close> and \<^verbatim>\<open>undefined\<close>, for the names the script reads (\<^verbatim>\<open>success\<close>,
  \<^verbatim>\<open>error\<close>, \<^verbatim>\<open>cycle_day\<close>, \<^verbatim>\<open>phase\<close>, \<^verbatim>\<open>choices\<close>, \<^verbatim>\<open>message\<close>,
  \<^verbatim>\<open>content\<close>): none of them is a property of a built-in prototype, so only an
  object's own property answers.
\<close>

definition own_property :: "js_value \<Rightarrow> js_string \<Rightarrow> js_value" where
  "own_property v k =
     (case v of
        JObj ps \<Rightarrow> (case map_of ps k of None \<Rightarrow> JUndefined | Some x \<Rightarrow> x)
      | _ \<Rightarrow> JUndefined)"

text \<open>\<^verbatim>\<open>v.k\<close>: reading a property of \<^verbatim>\<open>null\<close> or \<^verbatim>\<open>undefined\<close> throws.\<close>

definition get :: "host \<Rightarrow> js_value \<Rightarrow> js_string \<Rightarrow> js_value completion" where
  "get h v k = (if nullish v then Throw (nullReadMessage h v k) else Normal (own_property v k))"

text \<open>\<^verbatim>\<open>v?.k\<close> inside an optional chain whose later links are skipped as well.\<close>

definition get_optional :: "js_value \<Rightarrow> js_string \<Rightarrow> js_value" where
  "get_optional v k = (if nullish v then JUndefined else own_property v k)"

text \<open>\<^verbatim>\<open>v?.[0]\<close>: the first element of an array, the first code unit of a string, the
  property \<^verbatim>\<open>"0"\<close> of an object.\<close>

definition get_optional_0 :: "js_value \<Rightarrow> js_value" where
  "get_optional_0 v =
     (case v of
        JArr xs \<Rightarrow> (case xs of [] \<Rightarrow> JUndefined | x # _ \<Rightarrow> x)
      | JStr s \<Rightarrow> (case s of [] \<Rightarrow> JUndefined | c # _ \<Rightarrow> JStr [c])
      | JObj ps \<Rightarrow> (case map_of ps (js ''0'') of None \<Rightarrow> JUndefined | Some x \<Rightarrow> x)
      | _ \<Rightarrow> JUndefined)"

section \<open>Conversions between numbers and strings\<close>

definition digit :: "nat \<Rightarrow> 16 word" where
  "digit d = word_of_nat (48 + d)"

fun nat_to_string :: "nat \<Rightarrow> js_string" where
  "nat_to_string n = (if n < 10 then [digit n] else nat_to_string (n div 10) @ [digit (n mod 10)])"

definition int_to_string :: "int \<Rightarrow> js_string" where
  "int_to_string i = (if i < 0 then js ''-'' @ nat_to_string (nat (- i)) else nat_to_string (nat i))"

definition safe_integer :: "rat \<Rightarrow> bool" where
  "safe_integer q \<longleftrightarrow> of_int \<lfloor>q\<rfloor> = q \<and> \<bar>q\<bar> \<le> 2 ^ 53"

text \<open>\<^verbatim>\<open>Number::toString\<close>: the decimal numeral for an integer of magnitude at most
  \<open>2^53\<close>, the engine's floating-point printing otherwise.\<close>

definition number_to_string :: "host \<Rightarrow> js_number \<Rightarrow> js_string" where
  "number_to_string h n =
     (case n of
        NaN \<Rightarrow> js ''NaN''
      | PosInfinity \<Rightarrow> js ''Infinity''
      | NegInfinity \<Rightarrow> js ''-Infinity''
      | Fin q \<Rightarrow> if safe_integer q then int_to_string \<lfloor>q\<rfloor> else numberToString h q)"

text \<open>
  \<^verbatim>\<open>ToString\<close>, as a template literal, \<^verbatim>\<open>new Error(v)\<close> and \<^verbatim>\<open>setItem\<close> apply it.
  An array joins its elements with commas, \<^verbatim>\<open>null\<close> and \<^verbatim>\<open>undefined\<close> elements
  giving the empty string. An object gives \<^verbatim>\<open>[object Object]\<close>, unless it has an own
  property \<^verbatim>\<open>toString\<close>: a parsed JSON value is never callable, so the conversion to a
  primitive then throws.
\<close>

fun ToString :: "host \<Rightarrow> js_value \<Rightarrow> js_string completion"
  and join :: "host \<Rightarrow> js_value list \<Rightarrow> js_string completion" where
  "ToString h JUndefined = Normal (js ''undefined'')"
| "ToString h JNull = Normal (js ''null'')"
| "ToString h (JBool b) = Normal (if b then js ''true'' else js ''false'')"
| "ToString h (JNum n) = Normal (number_to_string h n)"
| "ToString h (JStr s) = Normal s"
| "ToString h (JArr xs) = join h xs"
| "ToString h (JObj ps) =
     (if map_of ps (js ''toString'') \<noteq> None then Throw (toPrimitiveMessage h)
      else Normal (js ''[object Object]''))"
| "join h [] = Normal []"
| "join h (x # xs) =
     bind (if nullish x then Normal [] else ToString h x) (\<lambda>a.
       if xs = [] then Normal a
       else bind (join h xs) (\<lambda>b. Normal (a @ js '','' @ b)))"

text \<open>
  The numeric conversion of a string (\<^verbatim>\<open>Number(s)\<close>): white space trimmed; the empty
  string is 0; then a binary, octal or hexadecimal integer without sign, or an optionally
  signed \<^verbatim>\<open>Infinity\<close> or decimal literal with optional fraction and exponent;
  anything else is \<^verbatim>\<open>NaN\<close>.
\<close>

definition is_digit :: "16 word \<Rightarrow> bool" where
  "is_digit c \<longleftrightarrow> 0x30 \<le> c \<and> c \<le> 0x39"

definition hex_value :: "16 word \<Rightarrow> nat" where
  "hex_value c =
     (if 0x30 \<le> c \<and> c \<le> 0x39 then unat c - 0x30
      else if 0x61 \<le> c \<and> c \<le> 0x66 then unat c - 0x61 + 10
      else if 0x41 \<le> c \<and> c \<le> 0x46 then unat c - 0x41 + 10
      else 16)"

definition digits_value :: "nat \<Rightarrow> js_string \<Rightarrow> nat" where
  "digits_value base s = foldl (\<lambda>acc c. acc * base + hex_value c) 0 s"

definition number_of :: "host \<Rightarrow> rat \<Rightarrow> js_number" where
  "number_of h q = (if safe_integer q then Fin q else numberValue h q)"

definition non_decimal_literal :: "js_string \<Rightarrow> nat option" where
  "non_decimal_literal s =
     (case s of
        z # x # ds \<Rightarrow>
          (let base = (if x = 0x78 \<or> x = 0x58 then 16
                       else if x = 0x6F \<or> x = 0x4F then 8
                       else if x = 0x62 \<or> x = 0x42 then 2
                       else (0::nat))
           in if z = 0x30 \<and> base \<noteq> 0 \<and> ds \<noteq> [] \<and> list_all (\<lambda>c. hex_value c < base) ds
              then Some (digits_value base ds) else None)
      | _ \<Rightarrow> None)"

definition exponent_part :: "js_string \<Rightarrow> int option" where
  "exponent_part s =
     (case s of
        [] \<Rightarrow> Some 0
      | e # t \<Rightarrow>
          if e = 0x65 \<or> e = 0x45 then
            (let neg = (case t of [] \<Rightarrow> False | c # _ \<Rightarrow> c = 0x2D);
                 ds = (case t of [] \<Rightarrow> [] | c # r \<Rightarrow> if c = 0x2D \<or> c = 0x2B then r else t)
             in if ds \<noteq> [] \<and> list_all is_digit ds
                then Some (if neg then - int (digits_value 10 ds) else int (digits_value 10 ds))
                else None)
          else None)"

definition power10 :: "int \<Rightarrow> rat" where
  "power10 k = (if 0 \<le> k then 10 ^ nat k else 1 / 10 ^ nat (- k))"

definition decimal_literal :: "js_string \<Rightarrow> rat option" where
  "decimal_literal s =
     (let ip = takeWhile is_digit s;
          r1 = dropWhile is_digit s;
          dot = (case r1 of [] \<Rightarrow> False | c # _ \<Rightarrow> c = 0x2E);
          fp = (if dot then takeWhile is_digit (tl r1) else []);
          r2 = (if dot then dropWhile is_digit (tl r1) else r1)
      in if ip = [] \<and> fp = [] then None
         else (case exponent_part r2 of
                 None \<Rightarrow> None
               | Some e \<Rightarrow> Some (of_nat (digits_value 10 (ip @ fp)) * power10 (e - int (length fp)))))"

definition StringToNumber :: "host \<Rightarrow> js_string \<Rightarrow> js_number" where
  "StringToNumber h s =
     (let t = trim s in
      if t = [] then Fin 0
      else (case non_decimal_literal t of
              Some n \<Rightarrow> number_of h (of_nat n)
            | None \<Rightarrow>
                (let neg = (hd t = 0x2D);
                     u = (if hd t = 0x2D \<or> hd t = 0x2B then tl t else t)
                 in if u = js ''Infinity'' then (if neg then NegInfinity else PosInfinity)
                    else (case decimal_literal u of
                            None \<Rightarrow> NaN
                          | Some q \<Rightarrow> number_of h (if neg then - q else q)))))"

section \<open>The page and the script's state\<close>

text \<open>
  The element \<^verbatim>\<open>addMessage\<close> appends to \<^verbatim>\<open>chatContainer\<close>: the wrapper's class
  name and what its bubble holds, markup set through \<^verbatim>\<open>innerHTML\<close> or literal text
  set through \<^verbatim>\<open>textContent\<close>.
\<close>

datatype bubble_content = InnerHTML js_string | TextContent js_string

record message_div =
  className :: js_string
  bubble :: bubble_content

text \<open>A call of \<^verbatim>\<open>fetch\<close>: the address and the object handed to \<^verbatim>\<open>JSON.stringify\<close>
  for the body (the method is POST and the headers are constants in both calls).\<close>

record request =
  url :: js_string
  body :: js_value

record response =
  ok :: bool
  json :: "js_value promise"

text \<open>What the world answers during one run of \<^verbatim>\<open>sendMessage\<close>: the clock
  (\<^verbatim>\<open>new Date().toISOString()\<close>) and the promises of the two \<^verbatim>\<open>fetch\<close> calls.\<close>

record env =
  now_iso :: js_string
  cycle_fetch :: "response promise"
  chat_fetch :: "response promise"

text \<open>
  The two module variables, the properties of the page's elements the script reads or
  writes, the storage, and the two logs of outward effects: alerts shown and requests
  sent. The page is taken to have the elements the script looks up, and a write to the
  storage to succeed; the scroll position of the chat is left out.
\<close>

record state =
  userLastPeriodDate :: js_value
  userCycleLength :: js_number
  setupLastPeriod_value :: js_string
  setupCycleLength_value :: js_string
  setupScreen_display :: js_string
  userInput_value :: js_string
  loading_display :: js_string
  chatContainer :: "message_div list"
  localStorage :: "js_string \<rightharpoonup> js_string"
  alerts :: "js_string list"
  fetches :: "request list"

text \<open>The state once the script has loaded, on a page whose chat is empty, whose fields
  are empty and whose elements carry no inline style.\<close>

definition fresh_page :: state where
  "fresh_page =
     \<lparr>userLastPeriodDate = JNull, userCycleLength = Fin 28,
      setupLastPeriod_value = [], setupCycleLength_value = [],
      setupScreen_display = [], userInput_value = [], loading_display = [],
      chatContainer = [], localStorage = Map.empty, alerts = [], fetches = []\<rparr>"

section \<open>The setup handler\<close>

text \<open>
  The click listener of \<^verbatim>\<open>completeSetupBtn\<close>. \<^verbatim>\<open>value || 28\<close> is the field's text
  unless that is empty, and \<^verbatim>\<open>Number\<close> leaves the number 28 as it is.
\<close>

definition completeSetup_click :: "host \<Rightarrow> state \<Rightarrow> state" where
  "completeSetup_click h st =
     (let lastPeriod = setupLastPeriod_value st;
          cycleLength = setupCycleLength_value st
      in if lastPeriod = [] then
           st\<lparr>alerts := alerts st @ [js ''Please enter the start date of your last period.'']\<rparr>
         else
           (let n = (if cycleLength = [] then Fin 28 else StringToNumber h cycleLength)
            in st\<lparr>userLastPeriodDate := JStr lastPeriod,
                  userCycleLength := n,
                  localStorage := (localStorage st)
                    (js ''lastPeriodDate'' \<mapsto> lastPeriod,
                     js ''cycleLength'' \<mapsto> number_to_string h n),
                  setupScreen_display := js ''none''\<rparr>))"

section \<open>Rendering a message\<close>

definition new_message :: "host \<Rightarrow> js_string \<Rightarrow> js_string \<Rightarrow> message_div" where
  "new_message h text sender =
     \<lparr>className = js ''message '' @ sender,
      bubble = (case marked h of
                  Some parse \<Rightarrow>
                    if sender = js ''assistant'' then InnerHTML (parse text) else TextContent text
                | None \<Rightarrow> TextContent text)\<rparr>"

definition addMessage :: "host \<Rightarrow> js_string \<Rightarrow> js_string \<Rightarrow> state \<Rightarrow> state" where
  "addMessage h text sender st = st\<lparr>chatContainer := chatContainer st @ [new_message h text sender]\<rparr>"

section \<open>The cycle phase fetcher\<close>

definition cycle_request :: "env \<Rightarrow> js_value \<Rightarrow> js_number \<Rightarrow> request" where
  "cycle_request e lastPeriodDate cycleLength =
     \<lparr>url = js ''http://127.0.0.1:5000/api/calculate-cycle'',
      body = JObj [(js ''last_period_date'', lastPeriodDate),
                   (js ''cycle_length'', JNum cycleLength),
                   (js ''current_date'', JStr (before_T (now_iso e)))]\<rparr>"

text \<open>A statement that may change the state, followed by the rest of the block: the
  rest runs only after a normal completion.\<close>

definition then_do ::
  "'a completion \<times> state \<Rightarrow> ('a \<Rightarrow> state \<Rightarrow> 'b completion \<times> state) \<Rightarrow> 'b completion \<times> state" where
  "then_do r f =
     (case r of
        (Normal v, st) \<Rightarrow> f v st
      | (Throw m, st) \<Rightarrow> (Throw m, st)
      | (Pending, st) \<Rightarrow> (Pending, st))"

definition fetch :: "request \<Rightarrow> response promise \<Rightarrow> state \<Rightarrow> response completion \<times> state" where
  "fetch req p st = (await p, st\<lparr>fetches := fetches st @ [req]\<rparr>)"

text \<open>\<^verbatim>\<open>new Error(v)\<close> takes \<^verbatim>\<open>ToString(v)\<close> as its message.\<close>

definition calculateCyclePhase ::
  "host \<Rightarrow> env \<Rightarrow> js_value \<Rightarrow> js_number \<Rightarrow> state \<Rightarrow> js_value completion \<times> state" where
  "calculateCyclePhase h e lastPeriodDate cycleLength st =
     then_do (fetch (cycle_request e lastPeriodDate cycleLength) (cycle_fetch e) st) (\<lambda>response st1.
       if \<not> ok response then (Throw (js ''Failed to calculate cycle phase''), st1)
       else
         (bind (await (json response)) (\<lambda>data.
            bind (get h data (js ''success'')) (\<lambda>success.
              if \<not> truthy success then
                bind (get h data (js ''error'')) (\<lambda>err.
                  bind (ToString h (if truthy err then err else JStr (js ''Unknown error occurred'')))
                    Throw)
              else Normal data)),
          st1))"

section \<open>The message flow\<close>

definition setup_request_text :: js_string where
  "setup_request_text =
     js ''Please complete the setup so I can understand your cycle '' @ [0xD83D, 0xDC95]"

definition fallback_text :: js_string where
  "fallback_text = js ''I'm sorry '' @ [0x2014] @ js '' I couldn't generate a response.''"

definition cycleInfoText :: "host \<Rightarrow> js_value \<Rightarrow> js_string completion" where
  "cycleInfoText h cycleInfo =
     bind (get h cycleInfo (js ''cycle_day'')) (\<lambda>cycle_day.
     bind (ToString h cycle_day) (\<lambda>day_text.
     bind (get h cycleInfo (js ''phase'')) (\<lambda>phase.
     bind (ToString h phase) (\<lambda>phase_text.
       Normal (js ''The user is currently on cycle day '' @ day_text @ js '', in the '' @
               phase_text @ js ''.'')))))"

text \<open>The template literal of the request: its line breaks and the twenty spaces of
  indentation after each belong to the string.\<close>

definition prompt :: "js_string \<Rightarrow> js_string \<Rightarrow> js_string" where
  "prompt info message =
     js ''You are Luna, a compassionate AI health companion specializing in menstrual health and hormonal science. A user is sharing their symptoms or experiences. '' @
     [0x0A] @ replicate 20 0x20 @
     js ''Provide validation and scientifically-backed insights about how their symptoms relate to hormonal cycles. Be warm, supportive, and informative. Keep responses concise but meaningful. Avoid medical diagnosis. '' @
     [0x0A] @ replicate 20 0x20 @
     info @
     [0x0A] @ replicate 20 0x20 @
     js ''User message: '' @ message"

definition chat_request :: "js_string \<Rightarrow> request" where
  "chat_request content =
     \<lparr>url = js ''https://openrouter.ai/api/v1/chat/completions'',
      body = JObj [(js ''model'', JStr (js ''mistralai/mistral-7b-instruct:free'')),
                   (js ''max_tokens'', JNum (Fin 1000)),
                   (js ''messages'',
                    JArr [JObj [(js ''role'', JStr (js ''user'')),
                                (js ''content'', JStr content)]])]\<rparr>"

text \<open>\<^verbatim>\<open>markdownText.replace(/~~/g, '')\<close>: only a string has the method; on any other
  value the call throws.\<close>

definition replace_tildes :: "host \<Rightarrow> js_value \<Rightarrow> js_string completion" where
  "replace_tildes h v =
     (case v of JStr s \<Rightarrow> Normal (remove_tildes s) | _ \<Rightarrow> Throw (notFunctionMessage h v))"

definition extract_content :: "js_value \<Rightarrow> js_value" where
  "extract_content choices =
     get_optional (get_optional (get_optional_0 choices) (js ''message'')) (js ''content'')"

definition reply_text :: "host \<Rightarrow> js_value \<Rightarrow> js_string completion" where
  "reply_text h data =
     bind (get h data (js ''choices'')) (\<lambda>choices.
       let content = extract_content choices;
           markdownText = (if truthy content then content else JStr fallback_text)
       in replace_tildes h markdownText)"

text \<open>How a run of \<^verbatim>\<open>sendMessage\<close> ends: at the guard on the empty input, at the
  guard on the missing setup, after the reply is rendered, in the \<^verbatim>\<open>catch\<close> block,
  or never (an awaited promise that does not settle).\<close>

datatype path = EmptyInput | NeedsSetup | Succeeded | Failed | Awaiting

definition try_block :: "host \<Rightarrow> env \<Rightarrow> js_string \<Rightarrow> state \<Rightarrow> path completion \<times> state" where
  "try_block h e message st =
     (if \<not> truthy (userLastPeriodDate st) then
        (Normal NeedsSetup,
         (addMessage h setup_request_text (js ''assistant'') st)\<lparr>loading_display := js ''none''\<rparr>)
      else
        then_do (calculateCyclePhase h e (userLastPeriodDate st) (userCycleLength st) st) (\<lambda>cycleInfo st1.
        then_do (cycleInfoText h cycleInfo, st1) (\<lambda>info st2.
        then_do (fetch (chat_request (prompt info message)) (chat_fetch e) st2) (\<lambda>response st3.
        then_do (await (json response), st3) (\<lambda>data st4.
        then_do (reply_text h data, st4) (\<lambda>markdownText st5.
          (Normal Succeeded, addMessage h markdownText (js ''assistant'') st5)))))))"

definition sendMessage :: "host \<Rightarrow> env \<Rightarrow> state \<Rightarrow> path \<times> state" where
  "sendMessage h e st =
     (let message = trim (userInput_value st) in
      if message = [] then (EmptyInput, st)
      else
        (let st1 = addMessage h message (js ''user'') st;
             st2 = st1\<lparr>userInput_value := []\<rparr>;
             st3 = st2\<lparr>loading_display := js ''block''\<rparr>
         in case try_block h e message st3 of
              (Normal p, st4) \<Rightarrow> (p, st4\<lparr>loading_display := js ''none''\<rparr>)
            | (Throw m, st4) \<Rightarrow>
                (Failed,
                 (addMessage h (js ''Error: '' @ m) (js ''assistant'') st4)
                   \<lparr>loading_display := js ''none''\<rparr>)
            | (Pending, st4) \<Rightarrow> (Awaiting, st4)))"

section \<open>One invocation, from await to await\<close>

text \<open>
  \<^verbatim>\<open>sendMessage\<close> is an \<^verbatim>\<open>async\<close> function: between two of its \<^verbatim>\<open>await\<close>s other
  handlers of the page may run, another \<^verbatim>\<open>sendMessage\<close> among them, since nothing
  blocks the message box while one is in flight. An invocation that has been suspended
  is kept as a value of type \<open>suspended\<close>: the message it read, the answers the world holds for it and the
  promise it waits for, with the \<^verbatim>\<open>response\<close> it has received where it waits for
  the body.
\<close>

datatype stage =
    AwaitCycleFetch
  | AwaitCycleJson response
  | AwaitChatFetch
  | AwaitChatJson response

datatype suspended = Suspended js_string env stage

datatype outcome = Ended path | Waiting suspended

text \<open>The \<^verbatim>\<open>catch\<close> block followed by the \<^verbatim>\<open>finally\<close> block.\<close>

definition catch_finally :: "host \<Rightarrow> js_string \<Rightarrow> state \<Rightarrow> state" where
  "catch_finally h msg st =
     (addMessage h (js ''Error: '' @ msg) (js ''assistant'') st)\<lparr>loading_display := js ''none''\<rparr>"

text \<open>What \<^verbatim>\<open>calculateCyclePhase\<close> does with the parsed body.\<close>

definition checked_cycle_data :: "host \<Rightarrow> js_value \<Rightarrow> js_value completion" where
  "checked_cycle_data h data =
     bind (get h data (js ''success'')) (\<lambda>success.
       if \<not> truthy success then
         bind (get h data (js ''error'')) (\<lambda>err.
           bind (ToString h (if truthy err then err else JStr (js ''Unknown error occurred'')))
             Throw)
       else Normal data)"

text \<open>The invocation up to its first \<^verbatim>\<open>await\<close>: the two guards, the user's message,
  and the call of \<^verbatim>\<open>fetch\<close> inside \<^verbatim>\<open>calculateCyclePhase\<close>.\<close>

definition start :: "host \<Rightarrow> env \<Rightarrow> state \<Rightarrow> outcome \<times> state" where
  "start h e st =
     (let message = trim (userInput_value st) in
      if message = [] then (Ended EmptyInput, st)
      else
        (let st1 = addMessage h message (js ''user'') st;
             st2 = st1\<lparr>userInput_value := []\<rparr>;
             st3 = st2\<lparr>loading_display := js ''block''\<rparr>
         in if \<not> truthy (userLastPeriodDate st3) then
              (Ended NeedsSetup,
               (addMessage h setup_request_text (js ''assistant'') st3)
                 \<lparr>loading_display := js ''none''\<rparr>\<lparr>loading_display := js ''none''\<rparr>)
            else
              (Waiting (Suspended message e AwaitCycleFetch),
               st3\<lparr>fetches := fetches st3 @
                     [cycle_request e (userLastPeriodDate st3) (userCycleLength st3)]\<rparr>)))"

text \<open>The invocation from the promise it waits for to its next \<^verbatim>\<open>await\<close> or to its
  end, on the state of the page as it is by then. A promise that has not settled leaves
  the invocation where it is.\<close>

definition resume :: "host \<Rightarrow> suspended \<Rightarrow> state \<Rightarrow> outcome \<times> state" where
  "resume h t st =
     (case t of Suspended message e stg \<Rightarrow>
        (case stg of
           AwaitCycleFetch \<Rightarrow>
             (case cycle_fetch e of
                Unsettled \<Rightarrow> (Waiting t, st)
              | Rejected msg \<Rightarrow> (Ended Failed, catch_finally h msg st)
              | Fulfilled response \<Rightarrow>
                  if \<not> ok response then
                    (Ended Failed, catch_finally h (js ''Failed to calculate cycle phase'') st)
                  else (Waiting (Suspended message e (AwaitCycleJson response)), st))
         | AwaitCycleJson response \<Rightarrow>
             (case json response of
                Unsettled \<Rightarrow> (Waiting t, st)
              | Rejected msg \<Rightarrow> (Ended Failed, catch_finally h msg st)
              | Fulfilled data \<Rightarrow>
                  (case bind (checked_cycle_data h data) (cycleInfoText h) of
                     Normal info \<Rightarrow>
                       (Waiting (Suspended message e AwaitChatFetch),
                        st\<lparr>fetches := fetches st @ [chat_request (prompt info message)]\<rparr>)
                   | Throw msg \<Rightarrow> (Ended Failed, catch_finally h msg st)
                   | Pending \<Rightarrow> (Waiting t, st)))
         | AwaitChatFetch \<Rightarrow>
             (case chat_fetch e of
                Unsettled \<Rightarrow> (Waiting t, st)
              | Rejected msg \<Rightarrow> (Ended Failed, catch_finally h msg st)
              | Fulfilled response \<Rightarrow> (Waiting (Suspended message e (AwaitChatJson response)), st))
         | AwaitChatJson response \<Rightarrow>
             (case json response of
                Unsettled \<Rightarrow> (Waiting t, st)
              | Rejected msg \<Rightarrow> (Ended Failed, catch_finally h msg st)
              | Fulfilled data \<Rightarrow>
                  (case reply_text h data of
                     Normal markdownText \<Rightarrow>
                       (Ended Succeeded,
                        (addMessage h markdownText (js ''assistant'') st)
                          \<lparr>loading_display := js ''none''\<rparr>)
                   | Throw msg \<Rightarrow> (Ended Failed, catch_finally h msg st)
                   | Pending \<Rightarrow> (Waiting t, st)))))"

text \<open>Whether the promise a suspended invocation waits for has settled.\<close>

definition settled :: "suspended \<Rightarrow> bool" where
  "settled t =
     (case t of Suspended message e stg \<Rightarrow>
        (case stg of
           AwaitCycleFetch \<Rightarrow> cycle_fetch e \<noteq> Unsettled
         | AwaitCycleJson response \<Rightarrow> json response \<noteq> Unsettled
         | AwaitChatFetch \<Rightarrow> chat_fetch e \<noteq> Unsettled
         | AwaitChatJson response \<Rightarrow> json response \<noteq> Unsettled))"

text \<open>An invocation left alone on the page: resumed as its promises settle, at most
  \<open>n\<close> times, until it ends or waits for a promise that never settles. The function
  \<open>sendMessage\<close> above is this with the four awaits of the source
  (\<open>sendMessage_alone\<close> below).\<close>

fun drive :: "nat \<Rightarrow> host \<Rightarrow> suspended \<Rightarrow> state \<Rightarrow> path \<times> state" where
  "drive 0 h t st = (Awaiting, st)"
| "drive (Suc n) h t st =
     (if \<not> settled t then (Awaiting, st)
      else (case resume h t st of
              (Ended p, st1) \<Rightarrow> (p, st1)
            | (Waiting t1, st1) \<Rightarrow> drive n h t1 st1))"

section \<open>Sessions\<close>

text \<open>
  What happens on the page, one event after the other: the user edits the message box
  or the two setup fields, clicks the setup button, or sends, which starts an
  invocation; or a promise settles and the invocation that waits for it (the
  \<open>i\<close>-th of those in flight, in the order they were started) goes on to its next
  \<^verbatim>\<open>await\<close> or to its end. A session keeps, besides the page and the invocations in
  flight, the trimmed message each send has read, and whether a send with a message
  was started while another invocation was in flight.
\<close>

datatype event =
    TypeMessage js_string
  | FillSetup js_string js_string
  | ClickCompleteSetup
  | Send env
  | Settle nat

record session =
  page :: state
  in_flight :: "suspended list"
  sent :: "js_string list"
  overlapped :: bool

definition opened :: "state \<Rightarrow> session" where
  "opened st = \<lparr>page = st, in_flight = [], sent = [], overlapped = False\<rparr>"

definition step :: "host \<Rightarrow> event \<Rightarrow> session \<Rightarrow> session" where
  "step h ev s =
     (case ev of
        TypeMessage text \<Rightarrow> s\<lparr>page := (page s)\<lparr>userInput_value := text\<rparr>\<rparr>
      | FillSetup d n \<Rightarrow>
          s\<lparr>page := (page s)\<lparr>setupLastPeriod_value := d, setupCycleLength_value := n\<rparr>\<rparr>
      | ClickCompleteSetup \<Rightarrow> s\<lparr>page := completeSetup_click h (page s)\<rparr>
      | Send e \<Rightarrow>
          (let message = trim (userInput_value (page s));
               s1 = s\<lparr>sent := sent s @ [message],
                       overlapped := (overlapped s \<or> (message \<noteq> [] \<and> in_flight s \<noteq> []))\<rparr>
           in case start h e (page s) of
                (Ended p, st1) \<Rightarrow> s1\<lparr>page := st1\<rparr>
              | (Waiting t, st1) \<Rightarrow> s1\<lparr>page := st1, in_flight := in_flight s @ [t]\<rparr>)
      | Settle i \<Rightarrow>
          if i < length (in_flight s) then
            (case resume h (in_flight s ! i) (page s) of
               (Ended p, st1) \<Rightarrow>
                 s\<lparr>page := st1, in_flight := take i (in_flight s) @ drop (Suc i) (in_flight s)\<rparr>
             | (Waiting t, st1) \<Rightarrow> s\<lparr>page := st1, in_flight := (in_flight s)[i := t]\<rparr>)
          else s)"

fun run :: "host \<Rightarrow> event list \<Rightarrow> session \<Rightarrow> session" where
  "run h [] s = s"
| "run h (ev # evs) s = run h evs (step h ev s)"

text \<open>
  The entries a session adds to the chat, as the statements name them: what the user
  said and what the assistant replied. \<open>answered_in_turn n\<close> holds of a list of entries
  in which every reply comes after a message of the user that has no reply yet, \<open>n\<close>
  such messages being there before the list.
\<close>

datatype entry = Said js_string | Replied js_string

definition render :: "host \<Rightarrow> entry \<Rightarrow> message_div" where
  "render h x =
     (case x of
        Said m \<Rightarrow> new_message h m (js ''user'')
      | Replied r \<Rightarrow> new_message h r (js ''assistant''))"

fun said :: "entry list \<Rightarrow> js_string list" where
  "said [] = []"
| "said (Said m # l) = m # said l"
| "said (Replied r # l) = said l"

fun replied :: "entry list \<Rightarrow> js_string list" where
  "replied [] = []"
| "replied (Said m # l) = replied l"
| "replied (Replied r # l) = r # replied l"

fun answered_in_turn :: "nat \<Rightarrow> entry list \<Rightarrow> bool" where
  "answered_in_turn n [] = True"
| "answered_in_turn n (Said m # l) = answered_in_turn (Suc n) l"
| "answered_in_turn n (Replied r # l) = (0 < n \<and> answered_in_turn (n - 1) l)"

section \<open>Vocabulary of the statements\<close>

text \<open>
  \<open>turn h st reply reqs\<close> is the state a completed send leaves behind on \<open>st\<close>: the
  user's trimmed message and one assistant message \<open>reply\<close> appended to the chat, the
  message box cleared, the loading indicator hidden, the requests \<open>reqs\<close> logged.
  \<open>exchange\<close> is the pair of chat entries of one send: the user's message and the
  reply to it.
\<close>

definition turn :: "host \<Rightarrow> state \<Rightarrow> js_string \<Rightarrow> request list \<Rightarrow> state" where
  "turn h st reply reqs =
     st\<lparr>chatContainer := chatContainer st @
            [new_message h (trim (userInput_value st)) (js ''user''),
             new_message h reply (js ''assistant'')],
        userInput_value := [], loading_display := js ''none'',
        fetches := fetches st @ reqs\<rparr>"

definition exchange :: "host \<Rightarrow> js_string \<Rightarrow> js_string \<Rightarrow> message_div list" where
  "exchange h m reply = [new_message h m (js ''user''), new_message h reply (js ''assistant'')]"

text \<open>The number of sends among the events of a session.\<close>

definition sends :: "event list \<Rightarrow> nat" where
  "sends evs = length (filter (\<lambda>ev. case ev of Send e \<Rightarrow> True | _ \<Rightarrow> False) evs)"

text \<open>
  Two properties a session keeps at every moment, \<open>c0\<close> being the chat it was opened
  on. \<open>tracked\<close>: the chat is \<open>c0\<close> followed by the entries \<open>es\<close>, whose messages of
  the user are the non-empty messages sent, in their order, every reply after a message
  that had none, and as many messages still without reply as there are invocations in
  flight. \<open>paired\<close>: as long as no send has overlapped another invocation, the chat is
  \<open>c0\<close> followed by one exchange for each non-empty message sent, the last of them still
  without its reply while its invocation is in flight.
\<close>

definition tracked :: "host \<Rightarrow> message_div list \<Rightarrow> session \<Rightarrow> entry list \<Rightarrow> bool" where
  "tracked h c0 s es \<longleftrightarrow>
     chatContainer (page s) = c0 @ map (render h) es \<and>
     said es = filter (\<lambda>m. m \<noteq> []) (sent s) \<and>
     answered_in_turn 0 es \<and>
     length (said es) = length (replied es) + length (in_flight s)"

definition paired :: "host \<Rightarrow> message_div list \<Rightarrow> session \<Rightarrow> bool" where
  "paired h c0 s \<longleftrightarrow>
     overlapped s \<or>
     (in_flight s = [] \<and>
      (\<exists>replies. length replies = length (filter (\<lambda>m. m \<noteq> []) (sent s)) \<and>
         chatContainer (page s) =
           c0 @ concat (map2 (exchange h) (filter (\<lambda>m. m \<noteq> []) (sent s)) replies))) \<or>
     ((\<exists>t. in_flight s = [t]) \<and> filter (\<lambda>m. m \<noteq> []) (sent s) \<noteq> [] \<and>
      (\<exists>replies. length replies = length (butlast (filter (\<lambda>m. m \<noteq> []) (sent s))) \<and>
         chatContainer (page s) =
           c0 @ concat (map2 (exchange h) (butlast (filter (\<lambda>m. m \<noteq> []) (sent s))) replies) @
           [new_message h (last (filter (\<lambda>m. m \<noteq> []) (sent s))) (js ''user'')]))"

text \<open>The calculation service answered with status OK and a body \<open>cycleInfo\<close> whose
  \<^verbatim>\<open>success\<close> is truthy, and the phase summary built from it is \<open>info\<close>.\<close>

definition cycle_phase_obtained :: "host \<Rightarrow> env \<Rightarrow> js_value \<Rightarrow> js_string \<Rightarrow> bool" where
  "cycle_phase_obtained h e cycleInfo info \<longleftrightarrow>
     (case cycle_fetch e of
        Fulfilled r \<Rightarrow> ok r \<and> json r = Fulfilled cycleInfo
      | _ \<Rightarrow> False) \<and>
     truthy (own_property cycleInfo (js ''success'')) \<and>
     cycleInfoText h cycleInfo = Normal info"

text \<open>What the rest of the try block makes of the answer of the completion service.\<close>

definition chat_outcome :: "host \<Rightarrow> env \<Rightarrow> js_string completion" where
  "chat_outcome h e = bind (await (chat_fetch e)) (\<lambda>r. bind (await (json r)) (reply_text h))"

section \<open>Example pages and answers\<close>

text \<open>
  An engine without \<^verbatim>\<open>marked\<close> (none of the examples reaches its floating-point
  fields), answers of the two services, and pages: \<open>hello_page\<close> before the setup,
  \<open>crampy_page\<close> after a setup with last period 2025-01-01 and the cycle length left
  blank.
\<close>

definition example_host :: host where
  "example_host =
     \<lparr>marked = None,
      nullReadMessage = (\<lambda>v k. js ''Cannot read properties of null''),
      notFunctionMessage = (\<lambda>v. js ''markdownText.replace is not a function''),
      toPrimitiveMessage = js ''Cannot convert object to primitive value'',
      numberValue = Fin,
      numberToString = (\<lambda>q. js ''?'')\<rparr>"

definition served :: "bool \<Rightarrow> js_value \<Rightarrow> response promise" where
  "served status_ok v = Fulfilled \<lparr>ok = status_ok, json = Fulfilled v\<rparr>"

definition day5 :: js_value where
  "day5 = JObj [(js ''success'', JBool True), (js ''cycle_day'', JNum (Fin 5)),
                (js ''phase'', JStr (js ''menstrual''))]"

definition reply_json :: "js_string \<Rightarrow> js_value" where
  "reply_json content =
     JObj [(js ''id'', JStr (js ''gen-1'')),
           (js ''choices'',
            JArr [JObj [(js ''message'',
                         JObj [(js ''role'', JStr (js ''assistant'')),
                               (js ''content'', JStr content)])]])]"

definition rate_limited :: js_value where
  "rate_limited =
     JObj [(js ''error'', JObj [(js ''message'', JStr (js ''Rate limit exceeded'')),
                                (js ''code'', JNum (Fin 429))])]"

definition example_env :: "response promise \<Rightarrow> response promise \<Rightarrow> env" where
  "example_env c d = \<lparr>now_iso = js ''2025-01-05T09:30:00.000Z'', cycle_fetch = c, chat_fetch = d\<rparr>"

definition hello_page :: state where
  "hello_page = fresh_page\<lparr>userInput_value := js '' hello ''\<rparr>"

definition setup_page :: "js_string \<Rightarrow> js_string \<Rightarrow> state" where
  "setup_page lastPeriod cycleLength =
     fresh_page\<lparr>setupLastPeriod_value := lastPeriod, setupCycleLength_value := cycleLength\<rparr>"

definition crampy_page :: state where
  "crampy_page =
     (completeSetup_click example_host (fresh_page\<lparr>setupLastPeriod_value := js ''2025-01-01''\<rparr>))
       \<lparr>userInput_value := js ''I feel crampy today''\<rparr>"

definition calm_session :: "event list" where
  "calm_session =
     [TypeMessage (js '' hello ''),
      Send (example_env Unsettled Unsettled),
      FillSetup (js ''2025-01-01'') [],
      ClickCompleteSetup,
      TypeMessage (js ''I feel crampy today''),
      Send (example_env (served True day5) (served True (reply_json (js ''~~Cramps~~ are common on day 5.'')))),
      Settle 0, Settle 0, Settle 0, Settle 0,
      TypeMessage (js ''and tomorrow?''),
      Send (example_env (served False JNull) Unsettled),
      Settle 0]"

definition hasty_session :: "event list" where
  "hasty_session =
     [FillSetup (js ''2025-01-01'') [],
      ClickCompleteSetup,
      TypeMessage (js ''I feel crampy today''),
      Send (example_env (served True day5) (served True (reply_json (js ''Cramps are common on day 5.'')))),
      TypeMessage (js ''and tomorrow?''),
      Send (example_env (served False JNull) Unsettled),
      Settle 1,
      Settle 0, Settle 0, Settle 0, Settle 0]"

section \<open>Sequencing\<close>

lemma then_do_simps [simp]:
  "then_do (Normal v, st) f = f v st"
  "then_do (Throw m, st) f = (Throw m, st)"
  "then_do (Pending, st) f = (Pending, st)"
  by (simp_all add: then_do_def)

lemma bind_simps [simp]:
  "bind (Normal v) g = g v"
  "bind (Throw m) g = Throw m"
  "bind Pending g = Pending"
  by (simp_all add: bind_def)

lemma await_simps [simp]:
  "await (Fulfilled v) = Normal v"
  "await (Rejected m) = Throw m"
  "await Unsettled = Pending"
  by (simp_all add: await_def)

lemma ToString_settles: "ToString h v \<noteq> Pending" "join h vs \<noteq> Pending"
  by (induction h v and h vs rule: ToString_join.induct)
     (auto simp: bind_def split: completion.splits)

section \<open>The shape of a run of sendMessage\<close>

lemma calculateCyclePhase_state:
  "snd (calculateCyclePhase h e d n st) = st\<lparr>fetches := fetches st @ [cycle_request e d n]\<rparr>"
  by (cases "cycle_fetch e") (simp_all add: calculateCyclePhase_def fetch_def)

lemma try_block_cases:
  assumes "truthy (userLastPeriodDate st)"
  obtains
    (succeeded) reply fs where
      "try_block h e m st =
         (Normal Succeeded,
          st\<lparr>chatContainer := chatContainer st @ [new_message h reply (js ''assistant'')],
             fetches := fetches st @ fs\<rparr>)"
  | (thrown) msg fs where "try_block h e m st = (Throw msg, st\<lparr>fetches := fetches st @ fs\<rparr>)"
  | (pending) fs where "try_block h e m st = (Pending, st\<lparr>fetches := fetches st @ fs\<rparr>)"
proof -
  obtain c where c: "calculateCyclePhase h e (userLastPeriodDate st) (userCycleLength st) st
     = (c, st\<lparr>fetches := fetches st @ [cycle_request e (userLastPeriodDate st) (userCycleLength st)]\<rparr>)"
    using calculateCyclePhase_state [of h e "userLastPeriodDate st" "userCycleLength st" st]
    by (cases "calculateCyclePhase h e (userLastPeriodDate st) (userCycleLength st) st") simp
  show thesis
  proof (cases c)
    case (Normal cycleInfo)
    show ?thesis
    proof (cases "cycleInfoText h cycleInfo")
      case info: (Normal info)
      show ?thesis
      proof (cases "bind (await (chat_fetch e)) (\<lambda>r. bind (await (json r)) (reply_text h))")
        case r: (Normal reply)
        show ?thesis
          apply (rule succeeded [where reply=reply and fs="[cycle_request e (userLastPeriodDate st) (userCycleLength st), chat_request (prompt info m)]"])
          using assms c Normal info r
          by (auto simp: try_block_def fetch_def addMessage_def bind_def await_def split: promise.splits completion.splits)
      next
        case r: (Throw msg)
        show ?thesis
          apply (rule thrown [where msg=msg and fs="[cycle_request e (userLastPeriodDate st) (userCycleLength st), chat_request (prompt info m)]"])
          using assms c Normal info r
          by (auto simp: try_block_def fetch_def addMessage_def bind_def await_def split: promise.splits completion.splits)
      next
        case r: Pending
        show ?thesis
          apply (rule pending [where fs="[cycle_request e (userLastPeriodDate st) (userCycleLength st), chat_request (prompt info m)]"])
          using assms c Normal info r
          by (auto simp: try_block_def fetch_def addMessage_def bind_def await_def split: promise.splits completion.splits)
      qed
    next
      case (Throw msg)
      then show ?thesis
        using assms c Normal by (intro thrown [where msg=msg and fs="[cycle_request e (userLastPeriodDate st) (userCycleLength st)]"]) (simp add: try_block_def)
    next
      case Pending
      then show ?thesis
        using assms c Normal by (intro pending [where fs="[cycle_request e (userLastPeriodDate st) (userCycleLength st)]"]) (simp add: try_block_def)
    qed
  next
    case (Throw msg)
    then show ?thesis
      using assms c by (intro thrown [where msg=msg and fs="[cycle_request e (userLastPeriodDate st) (userCycleLength st)]"]) (simp add: try_block_def)
  next
    case Pending
    then show ?thesis
      using assms c by (intro pending [where fs="[cycle_request e (userLastPeriodDate st) (userCycleLength st)]"]) (simp add: try_block_def)
  qed
qed

lemma try_block_path:
  "fst (try_block h e m st) \<noteq> Normal EmptyInput \<and> fst (try_block h e m st) \<noteq> Normal Awaiting
   \<and> fst (try_block h e m st) \<noteq> Normal Failed"
proof (cases "truthy (userLastPeriodDate st)")
  case True
  then show ?thesis by (cases rule: try_block_cases [where h=h and e=e and m=m]) simp_all
next
  case False
  then show ?thesis by (simp add: try_block_def)
qed

lemma sendMessage_EmptyInput:
  "fst (sendMessage h e st) = EmptyInput \<longleftrightarrow> trim (userInput_value st) = []"
  using try_block_path [of h e "trim (userInput_value st)"
      "(addMessage h (trim (userInput_value st)) (js ''user'') st)\<lparr>userInput_value := [], loading_display := js ''block''\<rparr>"]
  by (auto simp: sendMessage_def Let_def split: prod.splits completion.splits)

lemma sendMessage_completed:
  assumes "sendMessage h e st = (p, st')" and "p \<noteq> EmptyInput" and "p \<noteq> Awaiting"
  shows "trim (userInput_value st) \<noteq> [] \<and>
         (\<exists>reply fs. st' = st\<lparr>chatContainer := chatContainer st @
                                   [new_message h (trim (userInput_value st)) (js ''user''),
                                    new_message h reply (js ''assistant'')],
                                userInput_value := [], loading_display := js ''none'',
                                fetches := fetches st @ fs\<rparr>)"
proof -
  let ?m = "trim (userInput_value st)"
  let ?st3 = "(addMessage h ?m (js ''user'') st)\<lparr>userInput_value := [], loading_display := js ''block''\<rparr>"
  from assms have ne: "?m \<noteq> []"
    by (auto simp: sendMessage_def Let_def)
  show ?thesis
  proof (cases "truthy (userLastPeriodDate st)")
    case False
    with assms ne have "st' = st\<lparr>chatContainer := chatContainer st @
                                   [new_message h ?m (js ''user''),
                                    new_message h setup_request_text (js ''assistant'')],
                                userInput_value := [], loading_display := js ''none'',
                                fetches := fetches st @ []\<rparr>"
      by (auto simp: sendMessage_def Let_def try_block_def addMessage_def)
    with ne show ?thesis by blast
  next
    case True
    then have t: "truthy (userLastPeriodDate ?st3)" by (simp add: addMessage_def)
    from t show ?thesis
    proof (cases rule: try_block_cases [where h=h and e=e and m="?m"])
      case (succeeded reply fs)
      with assms ne have "st' = st\<lparr>chatContainer := chatContainer st @
                                   [new_message h ?m (js ''user''),
                                    new_message h reply (js ''assistant'')],
                                userInput_value := [], loading_display := js ''none'',
                                fetches := fetches st @ fs\<rparr>"
        by (auto simp: sendMessage_def Let_def addMessage_def)
      with ne show ?thesis by blast
    next
      case (thrown msg fs)
      with assms ne have "st' = st\<lparr>chatContainer := chatContainer st @
                                   [new_message h ?m (js ''user''),
                                    new_message h (js ''Error: '' @ msg) (js ''assistant'')],
                                userInput_value := [], loading_display := js ''none'',
                                fetches := fetches st @ fs\<rparr>"
        by (auto simp: sendMessage_def Let_def addMessage_def)
      with ne show ?thesis by blast
    next
      case (pending fs)
      with assms ne show ?thesis
        by (auto simp: sendMessage_def Let_def addMessage_def)
    qed
  qed
qed

section \<open>An invocation left alone\<close>

lemma sendMessage_alone:
  "sendMessage h e st =
     (case start h e st of
        (Ended p, st1) \<Rightarrow> (p, st1)
      | (Waiting t, st1) \<Rightarrow> drive 4 h t st1)"
proof (cases "trim (userInput_value st) = [] \<or> \<not> truthy (userLastPeriodDate st)")
  case True
  then show ?thesis
    by (auto simp: sendMessage_def start_def try_block_def addMessage_def Let_def)
next
  case False
  have four: "4 = Suc (Suc (Suc (Suc 0)))" by simp
  have c: "calculateCyclePhase h e d n s =
      (bind (await (cycle_fetch e)) (\<lambda>response.
         if \<not> ok response then Throw (js ''Failed to calculate cycle phase'')
         else bind (await (json response)) (checked_cycle_data h)),
       s\<lparr>fetches := fetches s @ [cycle_request e d n]\<rparr>)" for d n s
    by (cases "cycle_fetch e") (simp_all add: calculateCyclePhase_def fetch_def checked_cycle_data_def [abs_def])
  from False show ?thesis
    unfolding four
    by (auto simp: sendMessage_def start_def try_block_def c Let_def addMessage_def fetch_def
        resume_def settled_def catch_finally_def then_do_def bind_def await_def
        split: promise.splits completion.splits)
qed

section \<open>Sessions, step by step\<close>

lemma start_chat:
  assumes "start h e st = (out, st1)"
  shows "(trim (userInput_value st) = [] \<and> out = Ended EmptyInput \<and> st1 = st)
       \<or> (trim (userInput_value st) \<noteq> [] \<and> out = Ended NeedsSetup \<and>
           chatContainer st1 = chatContainer st @
             [render h (Said (trim (userInput_value st))), render h (Replied setup_request_text)])
       \<or> (trim (userInput_value st) \<noteq> [] \<and> (\<exists>t. out = Waiting t) \<and>
           chatContainer st1 = chatContainer st @ [render h (Said (trim (userInput_value st)))])"
  using assms
  by (auto simp: start_def Let_def addMessage_def render_def split: if_splits)

lemma resume_chat:
  assumes "resume h t st = (out, st1)"
  shows "((\<exists>t1. out = Waiting t1) \<and> chatContainer st1 = chatContainer st)
       \<or> ((\<exists>p. out = Ended p) \<and>
           (\<exists>r. chatContainer st1 = chatContainer st @ [render h (Replied r)]))"
proof (cases t)
  case (Suspended m e stg)
  with assms show ?thesis
    by (cases stg)
       (auto simp: resume_def catch_finally_def addMessage_def render_def
          split: promise.splits completion.splits if_splits)
qed

lemma said_append: "said (l @ l') = said l @ said l'"
  by (induction l rule: said.induct) simp_all

lemma replied_append: "replied (l @ l') = replied l @ replied l'"
  by (induction l rule: replied.induct) simp_all

lemma length_said_replied: "length (said l) + length (replied l) = length l"
  by (induction l rule: said.induct) simp_all

lemma answered_in_turn_append:
  "answered_in_turn n (l @ l') \<longleftrightarrow>
     answered_in_turn n l \<and>
     answered_in_turn (n + length (said l) - length (replied l)) l'"
proof (induction n l rule: answered_in_turn.induct)
  case (1 n)
  show ?case by simp
next
  case (2 n m l)
  then show ?case by simp
next
  case (3 n r l)
  show ?case
  proof (cases "0 < n")
    case True
    then have "n - 1 + length (said l) - length (replied l)
             = n + length (said l) - Suc (length (replied l))" by simp
    with 3 True show ?thesis by simp
  next
    case False
    then show ?thesis by simp
  qed
qed

lemma tracked_opened: "tracked h (chatContainer st) (opened st) []"
  by (simp add: tracked_def opened_def)

lemma tracked_step:
  assumes "tracked h c0 s es"
  shows "\<exists>es'. tracked h c0 (step h ev s) es'"
proof -
  from assms have c: "chatContainer (page s) = c0 @ map (render h) es"
    and sd: "said es = filter (\<lambda>m. m \<noteq> []) (sent s)"
    and a: "answered_in_turn 0 es"
    and k: "length (said es) = length (replied es) + length (in_flight s)"
    unfolding tracked_def by blast+
  show ?thesis
  proof (cases ev)
    case (TypeMessage x)
    with c sd a k have "tracked h c0 (step h ev s) es" by (simp add: step_def tracked_def)
    then show ?thesis ..
  next
    case (FillSetup d n)
    with c sd a k have "tracked h c0 (step h ev s) es" by (simp add: step_def tracked_def)
    then show ?thesis ..
  next
    case ClickCompleteSetup
    with c sd a k have "tracked h c0 (step h ev s) es"
      by (simp add: step_def tracked_def completeSetup_click_def Let_def)
    then show ?thesis ..
  next
    case (Send e)
    let ?m = "trim (userInput_value (page s))"
    obtain out st1 where st: "start h e (page s) = (out, st1)" by (cases "start h e (page s)")
    from start_chat [OF st] consider
        (empty) "?m = []" "out = Ended EmptyInput" "st1 = page s"
      | (guard) "?m \<noteq> []" "out = Ended NeedsSetup"
          "chatContainer st1 = chatContainer (page s) @
             [render h (Said ?m), render h (Replied setup_request_text)]"
      | (wait) t where "?m \<noteq> []" "out = Waiting t"
          "chatContainer st1 = chatContainer (page s) @ [render h (Said ?m)]"
      by blast
    then show ?thesis
    proof cases
      case empty
      with c sd a k Send st have "tracked h c0 (step h ev s) es"
        by (simp add: step_def tracked_def Let_def)
      then show ?thesis ..
    next
      case guard
      with c sd a k Send st
      have "tracked h c0 (step h ev s) (es @ [Said ?m, Replied setup_request_text])"
        by (simp add: step_def tracked_def Let_def said_append replied_append
            answered_in_turn_append)
      then show ?thesis ..
    next
      case wait
      with c sd a k Send st
      have "tracked h c0 (step h ev s) (es @ [Said ?m])"
        by (simp add: step_def tracked_def Let_def said_append replied_append
            answered_in_turn_append)
      then show ?thesis ..
    qed
  next
    case (Settle i)
    show ?thesis
    proof (cases "i < length (in_flight s)")
      case False
      with assms Settle have "tracked h c0 (step h ev s) es" by (simp add: step_def)
      then show ?thesis ..
    next
      case True
      obtain out st1 where r: "resume h (in_flight s ! i) (page s) = (out, st1)"
        by (cases "resume h (in_flight s ! i) (page s)")
      from resume_chat [OF r] consider
          (wait) t1 where "out = Waiting t1" "chatContainer st1 = chatContainer (page s)"
        | (ended) p rp where "out = Ended p"
            "chatContainer st1 = chatContainer (page s) @ [render h (Replied rp)]"
        by blast
      then show ?thesis
      proof cases
        case wait
        with c sd a k Settle True r have "tracked h c0 (step h ev s) es"
          by (simp add: step_def tracked_def)
        then show ?thesis ..
      next
        case ended
        from True have "length (take i (in_flight s) @ drop (Suc i) (in_flight s))
                        = length (in_flight s) - 1"
          and "in_flight s \<noteq> []" and "0 < length (in_flight s)" by auto
        with c sd a k Settle True r ended
        have "tracked h c0 (step h ev s) (es @ [Replied rp])"
          by (auto simp: step_def tracked_def said_append replied_append answered_in_turn_append)
        then show ?thesis ..
      qed
    qed
  qed
qed

lemma tracked_run:
  "tracked h c0 s es \<Longrightarrow> \<exists>es'. tracked h c0 (run h evs s) es'"
proof (induction evs arbitrary: s es)
  case Nil
  then show ?case by auto
next
  case (Cons ev evs)
  from tracked_step [OF Cons.prems] obtain es1 where "tracked h c0 (step h ev s) es1" ..
  from Cons.IH [OF this] show ?case by simp
qed

lemma concat_map2_snoc:
  "length xs = length ys \<Longrightarrow>
     concat (map2 f (xs @ [x]) (ys @ [y])) = concat (map2 f xs ys) @ f x y"
  by simp

lemma paired_opened: "paired h (chatContainer st) (opened st)"
  by (simp add: paired_def opened_def)

lemma paired_step:
  assumes "paired h c0 s"
  shows "paired h c0 (step h ev s)"
proof (cases "overlapped s")
  case True
  then have "overlapped (step h ev s)"
    by (cases ev) (auto simp: step_def Let_def split: prod.splits outcome.splits)
  then show ?thesis by (simp add: paired_def)
next
  case False
  let ?ne = "filter (\<lambda>m. m \<noteq> []) (sent s)"
  from assms False consider
      (idle) replies where "in_flight s = []" "length replies = length ?ne"
        "chatContainer (page s) = c0 @ concat (map2 (exchange h) ?ne replies)"
    | (busy) t replies where "in_flight s = [t]" "?ne \<noteq> []"
        "length replies = length (butlast ?ne)"
        "chatContainer (page s) =
           c0 @ concat (map2 (exchange h) (butlast ?ne) replies) @
           [new_message h (last ?ne) (js ''user'')]"
    unfolding paired_def by blast
  then show ?thesis
  proof cases
    case idle
    show ?thesis
    proof (cases ev)
      case (TypeMessage x)
      with assms show ?thesis by (simp add: step_def paired_def)
    next
      case (FillSetup d n)
      with assms show ?thesis by (simp add: step_def paired_def)
    next
      case ClickCompleteSetup
      with assms show ?thesis by (simp add: step_def paired_def completeSetup_click_def Let_def)
    next
      case (Settle i)
      with idle assms show ?thesis by (simp add: step_def)
    next
      case (Send e)
      let ?m = "trim (userInput_value (page s))"
      obtain out st1 where st: "start h e (page s) = (out, st1)" by (cases "start h e (page s)")
      from start_chat [OF st] consider
          (empty) "?m = []" "out = Ended EmptyInput" "st1 = page s"
        | (guard) "?m \<noteq> []" "out = Ended NeedsSetup"
            "chatContainer st1 = chatContainer (page s) @
               [render h (Said ?m), render h (Replied setup_request_text)]"
        | (wait) t where "?m \<noteq> []" "out = Waiting t"
            "chatContainer st1 = chatContainer (page s) @ [render h (Said ?m)]"
        by blast
      then show ?thesis
      proof cases
        case empty
        with assms Send st show ?thesis by (simp add: step_def paired_def Let_def)
      next
        case guard
        from idle(2,3) guard(3)
        have "length (replies @ [setup_request_text]) = length (?ne @ [?m]) \<and>
              chatContainer st1 =
                c0 @ concat (map2 (exchange h) (?ne @ [?m]) (replies @ [setup_request_text]))"
          by (simp add: exchange_def render_def)
        then have "\<exists>rs. length rs = length (?ne @ [?m]) \<and>
              chatContainer st1 = c0 @ concat (map2 (exchange h) (?ne @ [?m]) rs)" by blast
        with idle(1) guard(1,2) Send st show ?thesis
          by (simp add: step_def paired_def Let_def)
      next
        case wait
        from idle(2,3) wait(3)
        have "\<exists>rs. length rs = length ?ne \<and>
              chatContainer st1 = c0 @ concat (map2 (exchange h) ?ne rs) @
                [new_message h ?m (js ''user'')]"
          by (auto simp: render_def)
        with idle(1) wait(1,2) Send st show ?thesis
          by (simp add: step_def paired_def Let_def)
      qed
    qed
  next
    case busy
    show ?thesis
    proof (cases ev)
      case (TypeMessage x)
      with assms show ?thesis by (simp add: step_def paired_def)
    next
      case (FillSetup d n)
      with assms show ?thesis by (simp add: step_def paired_def)
    next
      case ClickCompleteSetup
      with assms show ?thesis by (simp add: step_def paired_def completeSetup_click_def Let_def)
    next
      case (Send e)
      show ?thesis
      proof (cases "trim (userInput_value (page s)) = []")
        case True
        then have "start h e (page s) = (Ended EmptyInput, page s)"
          by (simp add: start_def)
        with assms Send True show ?thesis by (simp add: step_def paired_def Let_def)
      next
        case False
        with busy(1) Send have "overlapped (step h ev s)"
          by (auto simp: step_def Let_def split: prod.splits outcome.splits)
        then show ?thesis by (simp add: paired_def)
      qed
    next
      case (Settle i)
      show ?thesis
      proof (cases "i = 0")
        case False
        with busy(1) Settle assms show ?thesis by (simp add: step_def)
      next
        case True
        obtain out st1 where r: "resume h t (page s) = (out, st1)"
          by (cases "resume h t (page s)")
        from resume_chat [OF r] consider
            (wait) t1 where "out = Waiting t1" "chatContainer st1 = chatContainer (page s)"
          | (ended) p rp where "out = Ended p"
              "chatContainer st1 = chatContainer (page s) @ [render h (Replied rp)]"
          by blast
        then show ?thesis
        proof cases
          case wait
          with busy True Settle r \<open>\<not> overlapped s\<close> show ?thesis
            by (auto simp: step_def paired_def)
        next
          case ended
          from busy(2) have ne: "?ne = butlast ?ne @ [last ?ne]" by simp
          from busy(3,4) ended(2)
          have "length (replies @ [rp]) = length (butlast ?ne @ [last ?ne]) \<and>
                chatContainer st1 =
                  c0 @ concat (map2 (exchange h) (butlast ?ne @ [last ?ne]) (replies @ [rp]))"
            by (simp add: exchange_def render_def)
          with ne have "\<exists>rs. length rs = length ?ne \<and>
                chatContainer st1 = c0 @ concat (map2 (exchange h) ?ne rs)" by metis
          with busy(1) True Settle r ended(1) \<open>\<not> overlapped s\<close> show ?thesis
            by (simp add: step_def paired_def)
        qed
      qed
    qed
  qed
qed

lemma paired_run: "paired h c0 s \<Longrightarrow> paired h c0 (run h evs s)"
  by (induction evs arbitrary: s) (simp_all add: paired_step)

lemma step_sent:
  "length (sent (step h ev s)) = length (sent s) + (case ev of Send e \<Rightarrow> 1 | _ \<Rightarrow> 0)"
  by (cases ev) (auto simp: step_def Let_def split: prod.splits outcome.splits)

lemma run_sent: "length (sent (run h evs s)) = length (sent s) + sends evs"
proof (induction evs arbitrary: s)
  case Nil
  show ?case by (simp add: sends_def)
next
  case (Cons ev evs)
  have "sends (ev # evs) = (case ev of Send e \<Rightarrow> 1 | _ \<Rightarrow> 0) + sends evs"
    by (cases ev) (simp_all add: sends_def)
  with Cons [of "step h ev s"] show ?case by (simp add: step_sent)
qed

lemma step_chat_grows: "prefix (chatContainer (page s)) (chatContainer (page (step h ev s)))"
proof (cases ev)
  case (Send e)
  obtain out st1 where st: "start h e (page s) = (out, st1)" by (cases "start h e (page s)")
  from start_chat [OF st] Send st show ?thesis
    by (auto simp: step_def Let_def)
next
  case (Settle i)
  show ?thesis
  proof (cases "i < length (in_flight s)")
    case True
    obtain out st1 where r: "resume h (in_flight s ! i) (page s) = (out, st1)"
      by (cases "resume h (in_flight s ! i) (page s)")
    from resume_chat [OF r] Settle True r show ?thesis
      by (auto simp: step_def)
  next
    case False
    with Settle show ?thesis by (simp add: step_def)
  qed
qed (simp_all add: step_def completeSetup_click_def Let_def)

lemma run_chat_grows: "prefix (chatContainer (page s)) (chatContainer (page (run h evs s)))"
proof (induction evs arbitrary: s)
  case Nil
  show ?case by simp
next
  case (Cons ev evs)
  from step_chat_grows [of s h ev] Cons [of "step h ev s"] show ?case
    by (auto intro: prefix_order.trans)
qed

lemma run_append: "run h (evs @ evs') s = run h evs' (run h evs s)"
  by (induction evs arbitrary: s) simp_all

section \<open>The cycle phase fetcher, case by case\<close>

lemma truthy_not_nullish: "truthy v \<Longrightarrow> \<not> nullish v"
  by (auto simp: truthy_def nullish_def)

lemma own_property_nullish: "nullish v \<Longrightarrow> own_property v k = JUndefined"
  by (auto simp: own_property_def nullish_def)

lemma calculateCyclePhase_obtained:
  assumes "cycle_phase_obtained h e cycleInfo info"
  shows "calculateCyclePhase h e d n st =
           (Normal cycleInfo, st\<lparr>fetches := fetches st @ [cycle_request e d n]\<rparr>)"
proof -
  from assms obtain r where r: "cycle_fetch e = Fulfilled r" "ok r" "json r = Fulfilled cycleInfo"
    and s: "truthy (own_property cycleInfo (js ''success''))"
    by (auto simp: cycle_phase_obtained_def split: promise.splits)
  from s have "\<not> nullish cycleInfo" using own_property_nullish [of cycleInfo] by (auto simp: truthy_def)
  with r s show ?thesis by (simp add: calculateCyclePhase_def fetch_def get_def)
qed

lemma calculateCyclePhase_not_ok:
  assumes "cycle_fetch e = Fulfilled r" and "\<not> ok r"
  shows "fst (calculateCyclePhase h e d n st) = Throw (js ''Failed to calculate cycle phase'')"
  using assms by (simp add: calculateCyclePhase_def fetch_def)

lemma calculateCyclePhase_no_success:
  assumes "cycle_fetch e = Fulfilled r" and "ok r" and "json r = Fulfilled data"
    and "\<not> nullish data" and "\<not> truthy (own_property data (js ''success''))"
  shows "fst (calculateCyclePhase h e d n st) =
           bind (ToString h (if truthy (own_property data (js ''error''))
                             then own_property data (js ''error'')
                             else JStr (js ''Unknown error occurred''))) Throw"
  using assms by (simp add: calculateCyclePhase_def fetch_def get_def)

lemma calculateCyclePhase_null:
  assumes "cycle_fetch e = Fulfilled r" and "ok r" and "json r = Fulfilled data"
    and "nullish data"
  shows "fst (calculateCyclePhase h e d n st) = Throw (nullReadMessage h data (js ''success''))"
  using assms by (simp add: calculateCyclePhase_def fetch_def get_def)

lemma sendMessage_cycle_throw:
  assumes ne: "trim (userInput_value st) \<noteq> []" and su: "truthy (userLastPeriodDate st)"
    and thr: "fst (calculateCyclePhase h e (userLastPeriodDate st) (userCycleLength st) st0) = Throw msg"
  shows "sendMessage h e st =
     (Failed, turn h st (js ''Error: '' @ msg) [cycle_request e (userLastPeriodDate st) (userCycleLength st)])"
proof -
  have indep: "fst (calculateCyclePhase h e d n s) = fst (calculateCyclePhase h e d n s')" for d n s s'
    by (cases "cycle_fetch e") (simp_all add: calculateCyclePhase_def fetch_def)
  let ?st3 = "(addMessage h (trim (userInput_value st)) (js ''user'') st)\<lparr>userInput_value := [], loading_display := js ''block''\<rparr>"
  have "calculateCyclePhase h e (userLastPeriodDate st) (userCycleLength st) ?st3
        = (Throw msg, ?st3\<lparr>fetches := fetches ?st3 @ [cycle_request e (userLastPeriodDate st) (userCycleLength st)]\<rparr>)"
    using thr indep [of "userLastPeriodDate st" "userCycleLength st" ?st3 st0]
      calculateCyclePhase_state [of h e "userLastPeriodDate st" "userCycleLength st" ?st3]
    by (cases "calculateCyclePhase h e (userLastPeriodDate st) (userCycleLength st) ?st3") simp
  then show ?thesis
    using ne su
    by (simp add: sendMessage_def Let_def try_block_def addMessage_def turn_def)
qed

lemma sendMessage_awaiting:
  assumes "fst (sendMessage h e st) = Awaiting"
  shows "cycle_fetch e = Unsettled \<or> (\<exists>r. cycle_fetch e = Fulfilled r \<and> json r = Unsettled) \<or>
         chat_fetch e = Unsettled \<or> (\<exists>r. chat_fetch e = Fulfilled r \<and> json r = Unsettled)"
proof (rule ccontr)
  assume n: "\<not> ?thesis"
  have a: "await p \<noteq> Pending" if "p \<noteq> Unsettled" for p :: "'a promise"
    using that by (cases p) simp_all
  have g: "get h v k \<noteq> Pending" for v k by (simp add: get_def)
  have c: "fst (calculateCyclePhase h e d m s) \<noteq> Pending" for d m s
    using n ToString_settles(1) [of h]
    by (cases "cycle_fetch e")
       (auto simp: calculateCyclePhase_def fetch_def get_def bind_def await_def
          split: promise.splits completion.splits)
  have i: "cycleInfoText h v \<noteq> Pending" for v
    using ToString_settles(1) [of h]
    by (auto simp: cycleInfoText_def get_def bind_def split: completion.splits)
  have r: "reply_text h v \<noteq> Pending" for v
    by (auto simp: reply_text_def get_def replace_tildes_def Let_def split: js_value.splits)
  have "fst (try_block h e m s) \<noteq> Pending" for m s
    using n c [of "userLastPeriodDate s" "userCycleLength s" s] i r
    by (cases "calculateCyclePhase h e (userLastPeriodDate s) (userCycleLength s) s";
        cases "chat_fetch e")
       (auto simp: try_block_def then_do_def fetch_def bind_def await_def
          split: completion.splits promise.splits)
  from this [of "trim (userInput_value st)"
      "(addMessage h (trim (userInput_value st)) (js ''user'') st)\<lparr>userInput_value := [], loading_display := js ''block''\<rparr>"]
    assms try_block_path [of h e "trim (userInput_value st)"
      "(addMessage h (trim (userInput_value st)) (js ''user'') st)\<lparr>userInput_value := [], loading_display := js ''block''\<rparr>"]
  show False
    by (auto simp: sendMessage_def Let_def split: if_splits prod.splits completion.splits)
qed

section \<open>The answer of the completion service\<close>

lemma extract_content_truthy_not_nullish:
  "extract_content (own_property data k) = JStr content \<Longrightarrow> \<not> nullish data"
  by (auto simp: nullish_def own_property_def extract_content_def get_optional_def get_optional_0_def)

lemma chat_outcome_reply:
  assumes "chat_fetch e = Fulfilled r" and "json r = Fulfilled data" and "\<not> nullish data"
  shows "chat_outcome h e =
           (let content = extract_content (own_property data (js ''choices''))
            in replace_tildes h (if truthy content then content else JStr fallback_text))"
  using assms by (simp add: chat_outcome_def reply_text_def get_def Let_def)

lemma fallback_text_replaced: "replace_tildes h (JStr fallback_text) = Normal fallback_text"
  by (simp add: replace_tildes_def fallback_text_def js_def)

lemma chat_outcome_fallback:
  assumes "chat_fetch e = Fulfilled r" and "json r = Fulfilled data" and "\<not> nullish data"
    and "\<not> truthy (extract_content (own_property data (js ''choices'')))"
  shows "chat_outcome h e = Normal fallback_text"
  using chat_outcome_reply [OF assms(1,2,3), of h] assms(4)
  by (simp add: Let_def fallback_text_replaced)

lemma sendMessage_after_cycle:
  assumes ne: "trim (userInput_value st) \<noteq> []" and su: "truthy (userLastPeriodDate st)"
    and cyc: "cycle_phase_obtained h e cycleInfo info"
  shows "sendMessage h e st =
     (let reqs = [cycle_request e (userLastPeriodDate st) (userCycleLength st),
                  chat_request (prompt info (trim (userInput_value st)))]
      in case chat_outcome h e of
           Normal reply \<Rightarrow> (Succeeded, turn h st reply reqs)
         | Throw msg \<Rightarrow> (Failed, turn h st (js ''Error: '' @ msg) reqs)
         | Pending \<Rightarrow>
             (Awaiting,
              st\<lparr>chatContainer := chatContainer st @ [new_message h (trim (userInput_value st)) (js ''user'')],
                 userInput_value := [], loading_display := js ''block'',
                 fetches := fetches st @ reqs\<rparr>))"
proof -
  from cyc have info: "cycleInfoText h cycleInfo = Normal info"
    by (simp add: cycle_phase_obtained_def)
  show ?thesis
    using ne su info
    by (cases "chat_fetch e"; cases "json (case chat_fetch e of Fulfilled r \<Rightarrow> r)";
        cases "reply_text h (case json (case chat_fetch e of Fulfilled r \<Rightarrow> r) of Fulfilled d \<Rightarrow> d)")
       (simp_all add: sendMessage_def Let_def try_block_def calculateCyclePhase_obtained [OF cyc]
          addMessage_def fetch_def turn_def chat_outcome_def)
qed

section \<open>Substrings of the prompt and of the reply\<close>

lemma remove_tildes_keeps_head: "b \<noteq> 0x7E \<Longrightarrow> remove_tildes (b # r) = b # remove_tildes r"
  by (cases r) simp_all

lemma remove_tildes_no_pair: "\<not> sublist [0x7E, 0x7E] (remove_tildes s)"
proof (induction s rule: remove_tildes.induct)
  case (1 a b r)
  show ?case
  proof (cases "a = 0x7E \<and> b = 0x7E")
    case True
    with 1 show ?thesis by simp
  next
    case False
    with 1 have ih: "\<not> sublist [0x7E, 0x7E] (remove_tildes (b # r))" by simp
    have "\<not> prefix [0x7E, 0x7E] (a # remove_tildes (b # r))"
    proof (cases "a = 0x7E")
      case True
      with False have "b \<noteq> 0x7E" by simp
      then show ?thesis by (simp add: remove_tildes_keeps_head)
    next
      case False
      then show ?thesis by simp
    qed
    with ih have "\<not> sublist [0x7E, 0x7E] (a # remove_tildes (b # r))"
      by (simp add: sublist_Cons_right)
    with False show ?thesis by auto
  qed
qed (simp_all add: sublist_Cons_right)

lemma sublist_prepend: "sublist x ys \<Longrightarrow> sublist x (zs @ ys)"
  by (auto simp: sublist_def) (metis append.assoc)

lemma sublist_extend: "sublist x ys \<Longrightarrow> sublist x (ys @ zs)"
  by (auto simp: sublist_def) (metis append.assoc)

lemma sublist_prompt_info: "sublist x info \<Longrightarrow> sublist x (prompt info m)"
  unfolding prompt_def by (intro sublist_prepend sublist_extend)

lemma sublist_prompt_message: "sublist m (prompt info m)"
  unfolding prompt_def by (intro sublist_prepend sublist_append_leftI)

lemma js_append: "js (a @ b) = js a @ js b"
  by (simp add: js_def)

section \<open>Decimal numerals\<close>

declare nat_to_string.simps [simp del]

lemma digit_cases:
  assumes "d < 10"
  shows "is_digit (digit d) \<and> hex_value (digit d) = d \<and> \<not> is_whitespace (digit d)
         \<and> digit d \<noteq> 0x2D \<and> digit d \<noteq> 0x2B \<and> digit d \<noteq> 0x49
         \<and> digit d \<noteq> 0x78 \<and> digit d \<noteq> 0x58 \<and> digit d \<noteq> 0x6F \<and> digit d \<noteq> 0x4F
         \<and> digit d \<noteq> 0x62 \<and> digit d \<noteq> 0x42"
proof -
  from assms consider "d = 0" | "d = 1" | "d = 2" | "d = 3" | "d = 4" | "d = 5" | "d = 6"
    | "d = 7" | "d = 8" | "d = 9" by atomize_elim arith
  then show ?thesis
    by cases (simp_all add: digit_def is_digit_def hex_value_def is_whitespace_def)
qed

lemma nat_to_string_not_Nil: "nat_to_string n \<noteq> []"
  by (subst nat_to_string.simps) simp

lemma nat_to_string_hd: "\<exists>d<10. hd (nat_to_string n) = digit d"
proof (induction n rule: nat_to_string.induct)
  case (1 n)
  show ?case
  proof (cases "n < 10")
    case True
    then show ?thesis by (subst nat_to_string.simps) auto
  next
    case False
    with 1 show ?thesis
      by (subst nat_to_string.simps) (simp add: nat_to_string_not_Nil)
  qed
qed

lemma nat_to_string_last: "\<exists>d<10. last (nat_to_string n) = digit d"
proof (cases "n < 10")
  case True
  then show ?thesis by (subst nat_to_string.simps) auto
next
  case False
  have "n mod 10 < 10" by simp
  then have "\<exists>d<10. digit (n mod 10) = digit d" by blast
  with False show ?thesis by (subst nat_to_string.simps) simp
qed

lemma nat_to_string_digits: "list_all is_digit (nat_to_string n)"
proof (induction n rule: nat_to_string.induct)
  case (1 n)
  show ?case
  proof (cases "n < 10")
    case True
    then show ?thesis by (subst nat_to_string.simps) (simp add: digit_cases)
  next
    case False
    with 1 show ?thesis
      by (subst nat_to_string.simps) (simp add: digit_cases)
  qed
qed

lemma digits_value_snoc: "digits_value b (s @ [c]) = digits_value b s * b + hex_value c"
  by (simp add: digits_value_def)

lemma digits_value_nat_to_string: "digits_value 10 (nat_to_string n) = n"
proof (induction n rule: nat_to_string.induct)
  case (1 n)
  show ?case
  proof (cases "n < 10")
    case True
    then show ?thesis
      by (subst nat_to_string.simps) (simp add: digits_value_def digit_cases)
  next
    case False
    with 1 show ?thesis
      by (subst nat_to_string.simps) (simp add: digits_value_snoc digit_cases)
  qed
qed

lemma trim_id:
  assumes "s \<noteq> []" and "\<not> is_whitespace (hd s)" and "\<not> is_whitespace (last s)"
  shows "trim s = s"
proof -
  from assms have "dropWhile is_whitespace s = s" by (cases s) simp_all
  moreover from assms have "dropWhile is_whitespace (rev s) = rev s"
    by (cases "rev s") (simp_all add: last_rev [symmetric] hd_rev)
  ultimately show ?thesis by (simp add: trim_def)
qed

lemma StringToNumber_nat_to_string:
  "StringToNumber h (nat_to_string n) = number_of h (of_nat n)"
proof -
  let ?s = "nat_to_string n"
  obtain d where d: "d < 10" "hd ?s = digit d" using nat_to_string_hd by blast
  obtain d' where d': "d' < 10" "last ?s = digit d'" using nat_to_string_last by blast
  have ne: "?s \<noteq> []" by (rule nat_to_string_not_Nil)
  have t: "trim ?s = ?s" using ne d d' by (intro trim_id) (simp_all add: digit_cases)
  have all: "list_all is_digit ?s" by (rule nat_to_string_digits)
  have nd: "non_decimal_literal ?s = None"
  proof (cases ?s)
    case Nil
    then show ?thesis by (simp add: non_decimal_literal_def)
  next
    case (Cons z r)
    show ?thesis
    proof (cases r)
      case Nil
      with Cons show ?thesis by (simp add: non_decimal_literal_def)
    next
      case (Cons x ds)
      with \<open>?s = z # r\<close> all have "is_digit x" by simp
      then have "x \<noteq> 0x78 \<and> x \<noteq> 0x58 \<and> x \<noteq> 0x6F \<and> x \<noteq> 0x4F \<and> x \<noteq> 0x62 \<and> x \<noteq> 0x42"
        by (auto simp: is_digit_def)
      with Cons \<open>?s = z # r\<close> show ?thesis by (simp add: non_decimal_literal_def)
    qed
  qed
  have inf: "?s \<noteq> js ''Infinity''"
    using d ne by (cases ?s) (auto simp: js_def digit_cases)
  have tw: "takeWhile is_digit ?s = ?s" "dropWhile is_digit ?s = []"
    using all by (simp_all add: list_all_iff)
  have dl: "decimal_literal ?s = Some (of_nat n)"
    using ne by (simp add: decimal_literal_def tw exponent_part_def power10_def
        digits_value_nat_to_string)
  show ?thesis
    using ne d t nd inf dl by (simp add: StringToNumber_def digit_cases)
qed

lemma safe_integer_of_nat: "n \<le> 2 ^ 53 \<Longrightarrow> safe_integer (of_nat n)"
proof -
  assume "n \<le> 2 ^ 53"
  then have "(of_nat n :: rat) \<le> of_nat (2 ^ 53)" by (simp only: of_nat_le_iff)
  then show ?thesis by (simp add: safe_integer_def)
qed

lemma number_to_string_of_nat:
  "n \<le> 2 ^ 53 \<Longrightarrow> number_to_string h (Fin (of_nat n)) = nat_to_string n"
  by (simp add: number_to_string_def safe_integer_of_nat int_to_string_def)

section \<open>The examples, evaluated\<close>

lemmas example_defs =
  sendMessage_def try_block_def calculateCyclePhase_def fetch_def
  completeSetup_click_def fresh_page_def hello_page_def crampy_page_def setup_page_def
  example_env_def served_def day5_def reply_json_def rate_limited_def
  example_host_def addMessage_def new_message_def trim_def is_whitespace_def js_def truthy_def
  get_def nullish_def own_property_def cycleInfoText_def number_to_string_def safe_integer_def
  int_to_string_def digit_def nat_to_string.simps reply_text_def extract_content_def
  get_optional_def get_optional_0_def replace_tildes_def Let_def cycle_request_def
  chat_request_def prompt_def setup_request_text_def fallback_text_def before_T_def

lemma crampy_page_fields:
  "userInput_value crampy_page = js ''I feel crampy today''"
  "userLastPeriodDate crampy_page = JStr (js ''2025-01-01'')"
  "userCycleLength crampy_page = Fin 28"
  "chatContainer crampy_page = []"
  "fetches crampy_page = []"
  "loading_display crampy_page = []"
  by (simp_all add: crampy_page_def completeSetup_click_def fresh_page_def js_def Let_def)

lemma crampy_trim: "trim (js ''I feel crampy today'') = js ''I feel crampy today''"
  by (simp add: trim_def js_def is_whitespace_def)

lemma crampy_page_ready:
  "trim (userInput_value crampy_page) \<noteq> []" "truthy (userLastPeriodDate crampy_page)"
  by (simp_all add: crampy_page_fields crampy_trim) (simp_all add: js_def truthy_def)

lemma day5_obtained:
  "cycle_phase_obtained h (example_env (served True day5) d) day5
     (js ''The user is currently on cycle day 5, in the menstrual.'')"
  by (simp add: cycle_phase_obtained_def example_env_def served_def day5_def own_property_def
      truthy_def cycleInfoText_def get_def nullish_def js_def number_to_string_def
      safe_integer_def int_to_string_def digit_def nat_to_string.simps)

lemma extract_reply_json:
  "extract_content (own_property (reply_json content) (js ''choices'')) = JStr content"
  by (simp add: reply_json_def own_property_def extract_content_def get_optional_def
      get_optional_0_def nullish_def js_def)

lemma example_paths:
  "fst (sendMessage example_host (example_env Unsettled Unsettled) hello_page) = NeedsSetup"
  "fst (sendMessage example_host
          (example_env (served True day5) (served True (reply_json (js ''Rest helps.''))))
          crampy_page) = Succeeded"
  "fst (sendMessage example_host (example_env (served False JNull) Unsettled) crampy_page) = Failed"
  by (simp_all add: example_defs)

lemmas session_defs =
  calm_session_def hasty_session_def opened_def step_def start_def resume_def
  catch_finally_def checked_cycle_data_def bind_def

lemma calm_session_run:
  "in_flight (run example_host calm_session (opened fresh_page)) = []"
  "sent (run example_host calm_session (opened fresh_page)) =
     [js ''hello'', js ''I feel crampy today'', js ''and tomorrow?'']"
  "\<not> overlapped (run example_host calm_session (opened fresh_page))"
  by (simp_all add: session_defs example_defs)

lemma hasty_session_run:
  "in_flight (run example_host hasty_session (opened fresh_page)) = []"
  "sent (run example_host hasty_session (opened fresh_page)) =
     [js ''I feel crampy today'', js ''and tomorrow?'']"
  by (simp_all add: session_defs example_defs)

section \<open>The claims\<close>

text \<open>
  Claim C1. If no setup exists (\<^verbatim>\<open>userLastPeriodDate\<close> is unset, or any falsy value),
  a send of an input whose trimmed text is not empty ends at the setup guard: nothing is
  added to the log of requests, so neither service is called, and the chat gains exactly
  the user's trimmed message followed by one assistant message, the setup request.
\<close>

theorem needs_setup:
  assumes "\<not> truthy (userLastPeriodDate st)" and "trim (userInput_value st) \<noteq> []"
  shows "sendMessage h e st =
           (NeedsSetup,
            st\<lparr>chatContainer := chatContainer st @
                   [new_message h (trim (userInput_value st)) (js ''user''),
                    new_message h setup_request_text (js ''assistant'')],
               userInput_value := [], loading_display := js ''none''\<rparr>)
         \<and> fetches (snd (sendMessage h e st)) = fetches st"
  using assms by (simp add: sendMessage_def Let_def try_block_def addMessage_def)

theorem needs_setup_witness:
  "sendMessage example_host (example_env Unsettled Unsettled) hello_page =
     (NeedsSetup,
      hello_page\<lparr>chatContainer := chatContainer hello_page @
                    [new_message example_host (trim (userInput_value hello_page)) (js ''user''),
                     new_message example_host setup_request_text (js ''assistant'')],
                 userInput_value := [], loading_display := js ''none''\<rparr>)
   \<and> fetches (snd (sendMessage example_host (example_env Unsettled Unsettled) hello_page)) =
       fetches hello_page"
proof -
  have h1: "\<not> truthy (userLastPeriodDate hello_page)"
    by (simp add: hello_page_def fresh_page_def truthy_def)
  have h2: "trim (userInput_value hello_page) \<noteq> []"
    by (simp add: hello_page_def fresh_page_def trim_def js_def is_whitespace_def)
  from needs_setup [OF h1 h2] show ?thesis .
qed

text \<open>
  Claim C2, amended to the cycle-calculation service. With a setup present and a
  non-empty trimmed input, when the calculation service answers with a status that is
  not OK, or with a body whose \<^verbatim>\<open>success\<close> is falsy, the send ends in the
  \<^verbatim>\<open>catch\<close> block and the assistant message appended after the user's message
  begins with \<^verbatim>\<open>Error: \<close>; only the request to the calculation service was sent.
\<close>

theorem cycle_service_error_reported:
  assumes "trim (userInput_value st) \<noteq> []" and "truthy (userLastPeriodDate st)"
    and "cycle_fetch e = Fulfilled r"
    and "\<not> ok r \<or> (json r = Fulfilled data \<and> \<not> truthy (own_property data (js ''success'')))"
  shows "\<exists>msg. sendMessage h e st =
           (Failed, turn h st (js ''Error: '' @ msg)
                      [cycle_request e (userLastPeriodDate st) (userCycleLength st)])"
proof -
  have "\<exists>msg. fst (calculateCyclePhase h e (userLastPeriodDate st) (userCycleLength st) st) = Throw msg"
  proof (cases "ok r")
    case False
    with assms(3) show ?thesis by (simp add: calculateCyclePhase_not_ok)
  next
    case True
    with assms(4) have j: "json r = Fulfilled data"
      and s: "\<not> truthy (own_property data (js ''success''))" by auto
    show ?thesis
    proof (cases "nullish data")
      case True
      with assms(3) \<open>ok r\<close> j show ?thesis by (simp add: calculateCyclePhase_null)
    next
      case False
      let ?v = "if truthy (own_property data (js ''error'')) then own_property data (js ''error'')
                else JStr (js ''Unknown error occurred'')"
      have "\<exists>msg. bind (ToString h ?v) Throw = Throw msg"
        using ToString_settles(1) [of h ?v] by (cases "ToString h ?v") simp_all
      with assms(3) \<open>ok r\<close> j s False show ?thesis
        by (simp add: calculateCyclePhase_no_success)
    qed
  qed
  then obtain msg where
    "fst (calculateCyclePhase h e (userLastPeriodDate st) (userCycleLength st) st) = Throw msg" ..
  from sendMessage_cycle_throw [OF assms(1,2) this] show ?thesis ..
qed

theorem cycle_service_error_reported_witness:
  "(\<exists>msg. sendMessage example_host (example_env (served False JNull) Unsettled) crampy_page =
       (Failed, turn example_host crampy_page (js ''Error: '' @ msg)
          [cycle_request (example_env (served False JNull) Unsettled)
             (userLastPeriodDate crampy_page) (userCycleLength crampy_page)]))
   \<and> (\<exists>msg. sendMessage example_host
         (example_env (served True (JObj [(js ''success'', JBool False)])) Unsettled) crampy_page =
       (Failed, turn example_host crampy_page (js ''Error: '' @ msg)
          [cycle_request (example_env (served True (JObj [(js ''success'', JBool False)])) Unsettled)
             (userLastPeriodDate crampy_page) (userCycleLength crampy_page)]))"
proof -
  let ?r1 = "\<lparr>ok = False, json = Fulfilled JNull\<rparr>"
  let ?d2 = "JObj [(js ''success'', JBool False)]"
  let ?r2 = "\<lparr>ok = True, json = Fulfilled ?d2\<rparr>"
  have f1: "cycle_fetch (example_env (served False JNull) Unsettled) = Fulfilled ?r1"
    by (simp add: example_env_def served_def)
  have c1: "\<not> ok ?r1 \<or> (json ?r1 = Fulfilled JNull \<and> \<not> truthy (own_property JNull (js ''success'')))"
    by simp
  have f2: "cycle_fetch (example_env (served True ?d2) Unsettled) = Fulfilled ?r2"
    by (simp add: example_env_def served_def)
  have c2: "\<not> ok ?r2 \<or> (json ?r2 = Fulfilled ?d2 \<and> \<not> truthy (own_property ?d2 (js ''success'')))"
    by (simp add: own_property_def truthy_def)
  from cycle_service_error_reported [OF crampy_page_ready f1 c1, of example_host]
    cycle_service_error_reported [OF crampy_page_ready f2 c2, of example_host]
  show ?thesis by (rule conjI)
qed

text \<open>
  The claim as stated, for the completion service: its status is never read. With the
  cycle phase obtained and the completion service answering with a status that is not
  OK and an error body without \<^verbatim>\<open>choices\<close>, the send succeeds and the assistant
  message is the fallback text, which does not begin with \<^verbatim>\<open>Error: \<close>.
\<close>

theorem chat_status_counterexample:
  "chat_fetch (example_env (served True day5) (served False rate_limited)) =
     Fulfilled \<lparr>ok = False, json = Fulfilled rate_limited\<rparr>
   \<and> fst (sendMessage example_host (example_env (served True day5) (served False rate_limited))
            crampy_page) = Succeeded
   \<and> last (chatContainer (snd (sendMessage example_host
            (example_env (served True day5) (served False rate_limited)) crampy_page))) =
       \<lparr>className = js ''message assistant'', bubble = TextContent fallback_text\<rparr>
   \<and> take 7 fallback_text \<noteq> js ''Error: ''"
  by (simp add: example_defs)

text \<open>
  Claim C3. With a setup present, a non-empty trimmed input and the cycle phase
  obtained, when the fetch of the completion service is fulfilled and its body parses to
  an object without the property \<^verbatim>\<open>choices\<close>, the send succeeds and the assistant
  message appended is exactly the string \<^verbatim>\<open>I'm sorry \<close>, em dash (U+2014),
  \<^verbatim>\<open> I couldn't generate a response.\<close>
\<close>

theorem fallback_without_choices:
  assumes "trim (userInput_value st) \<noteq> []" and "truthy (userLastPeriodDate st)"
    and "cycle_phase_obtained h e cycleInfo info"
    and "chat_fetch e = Fulfilled r" and "json r = Fulfilled (JObj ps)"
    and "map_of ps (js ''choices'') = None"
  shows "sendMessage h e st =
           (Succeeded,
            turn h st (js ''I'm sorry '' @ [0x2014] @ js '' I couldn't generate a response.'')
              [cycle_request e (userLastPeriodDate st) (userCycleLength st),
               chat_request (prompt info (trim (userInput_value st)))])"
proof -
  have "extract_content (own_property (JObj ps) (js ''choices'')) = JUndefined"
    using assms(6) by (simp add: own_property_def extract_content_def get_optional_def
        get_optional_0_def nullish_def)
  then have "\<not> truthy (extract_content (own_property (JObj ps) (js ''choices'')))"
    by (simp add: truthy_def)
  moreover have "\<not> nullish (JObj ps)" by (simp add: nullish_def)
  ultimately have "chat_outcome h e = Normal fallback_text"
    using assms(4,5) by (intro chat_outcome_fallback)
  with sendMessage_after_cycle [OF assms(1,2,3)] show ?thesis by (simp add: Let_def fallback_text_def)
qed

theorem fallback_without_choices_witness:
  "sendMessage example_host (example_env (served True day5) (served True rate_limited)) crampy_page =
     (Succeeded,
      turn example_host crampy_page (js ''I'm sorry '' @ [0x2014] @ js '' I couldn't generate a response.'')
        [cycle_request (example_env (served True day5) (served True rate_limited))
           (userLastPeriodDate crampy_page) (userCycleLength crampy_page),
         chat_request (prompt (js ''The user is currently on cycle day 5, in the menstrual.'')
                         (trim (userInput_value crampy_page)))])"
proof -
  let ?ps = "[(js ''error'', JObj [(js ''message'', JStr (js ''Rate limit exceeded'')),
                                (js ''code'', JNum (Fin 429))])]"
  let ?r = "\<lparr>ok = True, json = Fulfilled (JObj ?ps)\<rparr>"
  have f: "chat_fetch (example_env (served True day5) (served True rate_limited)) = Fulfilled ?r"
    by (simp add: example_env_def served_def rate_limited_def)
  have j: "json ?r = Fulfilled (JObj ?ps)" by simp
  have k: "map_of ?ps (js ''choices'') = None" by (simp add: js_def)
  from fallback_without_choices [OF crampy_page_ready day5_obtained f j k]
  show ?thesis .
qed

text \<open>
  Claim C4. For the input \<^verbatim>\<open>I feel crampy today\<close>, the setup 2025-01-01 with cycle
  length 28, and the calculation service returning success true, cycle day 5 and phase
  \<^verbatim>\<open>menstrual\<close>: the second request logged goes to the address of the completion
  service and the content of its one message is the prompt, which contains
  \<^verbatim>\<open>cycle day 5\<close>, \<^verbatim>\<open>menstrual\<close> and the user's message; and when the completion
  service returns a non-empty string as the content of its first choice, the assistant
  message appended is that string with every \<^verbatim>\<open>~~\<close> removed, and no
  \<^verbatim>\<open>~~\<close> is left in it.
\<close>

theorem crampy_example:
  assumes "userInput_value st = js ''I feel crampy today''"
    and "userLastPeriodDate st = JStr (js ''2025-01-01'')" and "userCycleLength st = Fin 28"
    and "cycle_fetch e = Fulfilled \<lparr>ok = True, json = Fulfilled (JObj
           [(js ''success'', JBool True), (js ''cycle_day'', JNum (Fin 5)),
            (js ''phase'', JStr (js ''menstrual''))])\<rparr>"
    and "chat_fetch e = Fulfilled r" and "json r = Fulfilled data"
    and "extract_content (own_property data (js ''choices'')) = JStr content" and "content \<noteq> []"
  shows "sendMessage h e st =
           (Succeeded,
            turn h st (remove_tildes content)
              [cycle_request e (JStr (js ''2025-01-01'')) (Fin 28),
               \<lparr>url = js ''https://openrouter.ai/api/v1/chat/completions'',
                 body = JObj [(js ''model'', JStr (js ''mistralai/mistral-7b-instruct:free'')),
                              (js ''max_tokens'', JNum (Fin 1000)),
                              (js ''messages'',
                               JArr [JObj [(js ''role'', JStr (js ''user'')),
                                           (js ''content'',
                                            JStr (prompt (js ''The user is currently on cycle day 5, in the menstrual.'')
                                                    (js ''I feel crampy today'')))]])]\<rparr>])
         \<and> sublist (js ''cycle day 5'')
              (prompt (js ''The user is currently on cycle day 5, in the menstrual.'') (js ''I feel crampy today''))
         \<and> sublist (js ''menstrual'')
              (prompt (js ''The user is currently on cycle day 5, in the menstrual.'') (js ''I feel crampy today''))
         \<and> sublist (js ''I feel crampy today'')
              (prompt (js ''The user is currently on cycle day 5, in the menstrual.'') (js ''I feel crampy today''))
         \<and> \<not> sublist (js ''~~'') (remove_tildes content)"
proof -
  let ?info = "js ''The user is currently on cycle day 5, in the menstrual.''"
  let ?cycleInfo = "JObj [(js ''success'', JBool True), (js ''cycle_day'', JNum (Fin 5)),
            (js ''phase'', JStr (js ''menstrual''))]"
  have m: "trim (userInput_value st) = js ''I feel crampy today''"
    using assms(1) by (simp add: trim_def js_def is_whitespace_def)
  have info: "cycleInfoText h ?cycleInfo = Normal ?info"
    by (simp add: cycleInfoText_def get_def nullish_def own_property_def js_def
        number_to_string_def safe_integer_def int_to_string_def digit_def nat_to_string.simps)
  have cyc: "cycle_phase_obtained h e ?cycleInfo ?info"
    unfolding cycle_phase_obtained_def using assms(4) info
    by (simp add: own_property_def truthy_def js_def)
  have su: "truthy (userLastPeriodDate st)"
    using assms(2) by (simp add: truthy_def js_def)
  have out: "chat_outcome h e = Normal (remove_tildes content)"
    using chat_outcome_reply [OF assms(5,6) extract_content_truthy_not_nullish [OF assms(7)], of h]
      assms(7,8)
    by (simp add: Let_def truthy_def replace_tildes_def)
  have "?info = js ''The user is currently on '' @ js ''cycle day 5'' @ js '', in the menstrual.''"
    by (simp add: js_def)
  then have s1: "sublist (js ''cycle day 5'') ?info"
    by (metis sublist_appendI)
  have "?info = js ''The user is currently on cycle day 5, in the '' @ js ''menstrual'' @ js ''.''"
    by (simp add: js_def)
  then have s2: "sublist (js ''menstrual'') ?info"
    by (metis sublist_appendI)
  have "trim (userInput_value st) \<noteq> []" using m by (simp add: js_def)
  from sendMessage_after_cycle [OF this su cyc] out m assms(2,3)
  have "sendMessage h e st =
           (Succeeded,
            turn h st (remove_tildes content)
              [cycle_request e (JStr (js ''2025-01-01'')) (Fin 28),
               chat_request (prompt ?info (js ''I feel crampy today''))])"
    by (simp add: Let_def)
  then have "sendMessage h e st =
           (Succeeded,
            turn h st (remove_tildes content)
              [cycle_request e (JStr (js ''2025-01-01'')) (Fin 28),
               \<lparr>url = js ''https://openrouter.ai/api/v1/chat/completions'',
                 body = JObj [(js ''model'', JStr (js ''mistralai/mistral-7b-instruct:free'')),
                              (js ''max_tokens'', JNum (Fin 1000)),
                              (js ''messages'',
                               JArr [JObj [(js ''role'', JStr (js ''user'')),
                                           (js ''content'',
                                            JStr (prompt (js ''The user is currently on cycle day 5, in the menstrual.'')
                                                    (js ''I feel crampy today'')))]])]\<rparr>])"
    by (simp only: chat_request_def)
  moreover have "\<not> sublist (js ''~~'') (remove_tildes content)"
    using remove_tildes_no_pair [of content] by (simp add: js_def)
  ultimately show ?thesis
    using s1 s2 by (simp add: sublist_prompt_info sublist_prompt_message)
qed

theorem crampy_example_witness:
  "sendMessage example_host
     (example_env (served True day5) (served True (reply_json (js ''~~Cramps~~ are common on day 5.''))))
     crampy_page =
   (Succeeded,
    turn example_host crampy_page (js ''Cramps are common on day 5.'')
      [cycle_request (example_env (served True day5) (served True (reply_json (js ''~~Cramps~~ are common on day 5.''))))
         (JStr (js ''2025-01-01'')) (Fin 28),
       \<lparr>url = js ''https://openrouter.ai/api/v1/chat/completions'',
                 body = JObj [(js ''model'', JStr (js ''mistralai/mistral-7b-instruct:free'')),
                              (js ''max_tokens'', JNum (Fin 1000)),
                              (js ''messages'',
                               JArr [JObj [(js ''role'', JStr (js ''user'')),
                                           (js ''content'',
                                            JStr (prompt (js ''The user is currently on cycle day 5, in the menstrual.'')
                                                    (js ''I feel crampy today'')))]])]\<rparr>])"
proof -
  let ?content = "js ''~~Cramps~~ are common on day 5.''"
  let ?e = "example_env (served True day5) (served True (reply_json ?content))"
  have c: "cycle_fetch ?e = Fulfilled \<lparr>ok = True, json = Fulfilled (JObj
           [(js ''success'', JBool True), (js ''cycle_day'', JNum (Fin 5)),
            (js ''phase'', JStr (js ''menstrual''))])\<rparr>"
    by (simp add: example_env_def served_def day5_def)
  have f: "chat_fetch ?e = Fulfilled \<lparr>ok = True, json = Fulfilled (reply_json ?content)\<rparr>"
    by (simp add: example_env_def served_def)
  have j: "json \<lparr>ok = True, json = Fulfilled (reply_json ?content)\<rparr> = Fulfilled (reply_json ?content)"
    by simp
  have ne: "?content \<noteq> []" by (simp add: js_def)
  have r: "remove_tildes ?content = js ''Cramps are common on day 5.''"
    by (simp add: js_def)
  from crampy_example [OF crampy_page_fields(1,2,3) c f j extract_reply_json ne, of example_host]
  show ?thesis by (simp only: r)
qed

text \<open>
  Claim C5, amended for invocations that overlap. In a session opened on a page with no
  invocation in flight, whose sends all read a non-empty trimmed input and have all
  completed (at the setup guard, after the reply, or in the \<^verbatim>\<open>catch\<close> block) by its
  end: the chat is the chat before followed by \<open>2 * N\<close> entries for \<open>N\<close> sends, one
  message of the user for each send, in send order, and one assistant message for each,
  every one of them after a message of the user that had no reply yet; when no send was
  started while another invocation was in flight, each message of the user is directly
  followed by the reply to it; and at every moment of the session the chat is a prefix
  of the final one, so that no entry is ever changed or removed.
\<close>

theorem session_chat_log:
  assumes "in_flight (run h evs (opened st)) = []"
    and "list_all (\<lambda>m. m \<noteq> []) (sent (run h evs (opened st)))"
  shows "length (sent (run h evs (opened st))) = sends evs
       \<and> length (chatContainer (page (run h evs (opened st)))) =
           length (chatContainer st) + 2 * sends evs
       \<and> (\<exists>es. chatContainer (page (run h evs (opened st))) =
                  chatContainer st @ map (render h) es \<and>
                said es = sent (run h evs (opened st)) \<and>
                length (replied es) = sends evs \<and>
                answered_in_turn 0 es)
       \<and> (\<not> overlapped (run h evs (opened st)) \<longrightarrow>
            (\<exists>replies. length replies = sends evs \<and>
               chatContainer (page (run h evs (opened st))) =
                 chatContainer st @
                 concat (map2 (exchange h) (sent (run h evs (opened st))) replies)))
       \<and> (\<forall>k. prefix (chatContainer (page (run h (take k evs) (opened st))))
                      (chatContainer (page (run h evs (opened st)))))"
proof -
  let ?s = "run h evs (opened st)"
  have n: "length (sent ?s) = sends evs"
    using run_sent [of h evs "opened st"] by (simp add: opened_def)
  from assms(2) have f: "filter (\<lambda>m. m \<noteq> []) (sent ?s) = sent ?s"
    by (simp add: list_all_iff)
  from tracked_run [OF tracked_opened] obtain es where t: "tracked h (chatContainer st) ?s es" ..
  then have e1: "chatContainer (page ?s) = chatContainer st @ map (render h) es"
    and e2: "said es = filter (\<lambda>m. m \<noteq> []) (sent ?s)"
    and e3: "answered_in_turn 0 es"
    and e4: "length (said es) = length (replied es) + length (in_flight ?s)"
    unfolding tracked_def by blast+
  from e1 e2 e3 e4 assms(1) f
  have es: "chatContainer (page ?s) = chatContainer st @ map (render h) es"
    "said es = sent ?s" "answered_in_turn 0 es" "length (said es) = length (replied es)"
    by simp_all
  with n have r: "length (replied es) = sends evs" by simp
  from es(2,4) n length_said_replied [of es] have "length es = 2 * sends evs" by simp
  with es(1) have len: "length (chatContainer (page ?s)) = length (chatContainer st) + 2 * sends evs"
    by simp
  have seq: "\<exists>replies. length replies = sends evs \<and>
               chatContainer (page ?s) =
                 chatContainer st @ concat (map2 (exchange h) (sent ?s) replies)"
    if "\<not> overlapped ?s"
    using paired_run [OF paired_opened, of h st evs] that assms(1) f n
    by (auto simp: paired_def)
  have mono: "prefix (chatContainer (page (run h (take k evs) (opened st))))
                     (chatContainer (page ?s))" for k
    using run_chat_grows [of "run h (take k evs) (opened st)" h "drop k evs"]
      run_append [of h "take k evs" "drop k evs" "opened st"] by simp
  from n len es r seq mono show ?thesis by blast
qed

theorem session_chat_log_witness:
  "length (chatContainer (page (run example_host calm_session (opened fresh_page)))) = 6
   \<and> (\<exists>replies. length replies = 3 \<and>
         chatContainer (page (run example_host calm_session (opened fresh_page))) =
           concat (map2 (exchange example_host)
                     [js ''hello'', js ''I feel crampy today'', js ''and tomorrow?''] replies))
   \<and> length (chatContainer (page (run example_host hasty_session (opened fresh_page)))) = 4
   \<and> (\<exists>es. chatContainer (page (run example_host hasty_session (opened fresh_page))) =
                map (render example_host) es \<and>
              said es = [js ''I feel crampy today'', js ''and tomorrow?''] \<and>
              length (replied es) = 2 \<and> answered_in_turn 0 es)"
proof -
  have c: "chatContainer fresh_page = []" by (simp add: fresh_page_def)
  have n1: "sends calm_session = 3" by (simp add: sends_def calm_session_def)
  have n2: "sends hasty_session = 2" by (simp add: sends_def hasty_session_def)
  have a1: "list_all (\<lambda>m. m \<noteq> []) (sent (run example_host calm_session (opened fresh_page)))"
    by (simp add: calm_session_run js_def)
  have a2: "list_all (\<lambda>m. m \<noteq> []) (sent (run example_host hasty_session (opened fresh_page)))"
    by (simp add: hasty_session_run js_def)
  from session_chat_log [OF calm_session_run(1) a1] calm_session_run(2,3)
  have "length (chatContainer (page (run example_host calm_session (opened fresh_page)))) = 6
   \<and> (\<exists>replies. length replies = 3 \<and>
         chatContainer (page (run example_host calm_session (opened fresh_page))) =
           concat (map2 (exchange example_host)
                     [js ''hello'', js ''I feel crampy today'', js ''and tomorrow?''] replies))"
    by (simp add: c n1)
  moreover from session_chat_log [OF hasty_session_run(1) a2] hasty_session_run(2)
  have "length (chatContainer (page (run example_host hasty_session (opened fresh_page)))) = 4
   \<and> (\<exists>es. chatContainer (page (run example_host hasty_session (opened fresh_page))) =
                map (render example_host) es \<and>
              said es = [js ''I feel crampy today'', js ''and tomorrow?''] \<and>
              length (replied es) = 2 \<and> answered_in_turn 0 es)"
    by (simp add: c n2)
  ultimately show ?thesis by blast
qed

text \<open>
  The claim as stated, for every sequence of completed invocations: a second message
  sent while the first invocation waits for the calculation service is appended right
  after the first message, and the two replies follow in the order the invocations
  complete, here the second before the first.
\<close>

theorem overlapping_sends_counterexample:
  "in_flight (run example_host hasty_session (opened fresh_page)) = []
   \<and> sent (run example_host hasty_session (opened fresh_page)) =
       [js ''I feel crampy today'', js ''and tomorrow?'']
   \<and> chatContainer (page (run example_host hasty_session (opened fresh_page))) =
       [\<lparr>className = js ''message user'', bubble = TextContent (js ''I feel crampy today'')\<rparr>,
        \<lparr>className = js ''message user'', bubble = TextContent (js ''and tomorrow?'')\<rparr>,
        \<lparr>className = js ''message assistant'',
         bubble = TextContent (js ''Error: Failed to calculate cycle phase'')\<rparr>,
        \<lparr>className = js ''message assistant'',
         bubble = TextContent (js ''Cramps are common on day 5.'')\<rparr>]"
  by (simp add: session_defs example_defs)

text \<open>
  Claim C6. Whenever a run of \<^verbatim>\<open>sendMessage\<close> ends after the reply, in the
  \<^verbatim>\<open>catch\<close> block or at the setup guard, the display of the loading indicator is
  \<^verbatim>\<open>none\<close> in the state it leaves.
\<close>

theorem loading_hidden:
  assumes "fst (sendMessage h e st) = Succeeded \<or> fst (sendMessage h e st) = Failed
           \<or> fst (sendMessage h e st) = NeedsSetup"
  shows "loading_display (snd (sendMessage h e st)) = js ''none''"
proof -
  from assms have "fst (sendMessage h e st) \<noteq> EmptyInput" "fst (sendMessage h e st) \<noteq> Awaiting"
    by auto
  from sendMessage_completed [OF surjective_pairing this] show ?thesis by auto
qed

theorem loading_hidden_witness:
  "loading_display (snd (sendMessage example_host (example_env Unsettled Unsettled) hello_page))
     = js ''none''
   \<and> loading_display (snd (sendMessage example_host
          (example_env (served True day5) (served True (reply_json (js ''Rest helps.''))))
          crampy_page)) = js ''none''
   \<and> loading_display (snd (sendMessage example_host
          (example_env (served False JNull) Unsettled) crampy_page)) = js ''none''"
  using loading_hidden [of example_host "example_env Unsettled Unsettled" hello_page]
    loading_hidden [of example_host
      "example_env (served True day5) (served True (reply_json (js ''Rest helps.'')))" crampy_page]
    loading_hidden [of example_host "example_env (served False JNull) Unsettled" crampy_page]
    example_paths
  by blast

text \<open>
  Claim C7. When the last-period field is empty, the click on the setup button shows
  the alert and changes nothing else: the two module variables keep their values, the
  storage is not written, and the display of the setup screen is what it was.
\<close>

theorem setup_without_date:
  assumes "setupLastPeriod_value st = []"
  shows "completeSetup_click h st =
           st\<lparr>alerts := alerts st @ [js ''Please enter the start date of your last period.'']\<rparr>
         \<and> userLastPeriodDate (completeSetup_click h st) = userLastPeriodDate st
         \<and> userCycleLength (completeSetup_click h st) = userCycleLength st
         \<and> localStorage (completeSetup_click h st) = localStorage st
         \<and> setupScreen_display (completeSetup_click h st) = setupScreen_display st"
  using assms by (simp add: completeSetup_click_def)

theorem setup_without_date_witness:
  "alerts (completeSetup_click example_host (setup_page [] (js ''30''))) =
     [js ''Please enter the start date of your last period.'']
   \<and> userLastPeriodDate (completeSetup_click example_host (setup_page [] (js ''30''))) = JNull
   \<and> userCycleLength (completeSetup_click example_host (setup_page [] (js ''30''))) = Fin 28
   \<and> localStorage (completeSetup_click example_host (setup_page [] (js ''30''))) = Map.empty
   \<and> setupScreen_display (completeSetup_click example_host (setup_page [] (js ''30''))) = []"
proof -
  have h: "setupLastPeriod_value (setup_page [] (js ''30'')) = []"
    by (simp add: setup_page_def fresh_page_def)
  from setup_without_date [OF h, of example_host] show ?thesis
    by (simp add: setup_page_def fresh_page_def)
qed

text \<open>
  Claim C8, amended on the error field. With a setup present and a non-empty trimmed
  input: when the calculation service answers with a status that is not OK,
  \<^verbatim>\<open>calculateCyclePhase\<close> throws and the assistant message is exactly
  \<^verbatim>\<open>Error: Failed to calculate cycle phase\<close>; when the status is OK and the body's
  \<^verbatim>\<open>success\<close> is falsy, the assistant message is \<^verbatim>\<open>Error: \<close> followed by the
  string conversion of the body's \<^verbatim>\<open>error\<close> when that is truthy, and exactly
  \<^verbatim>\<open>Error: Unknown error occurred\<close> when it is absent or falsy.
\<close>

theorem cycle_error_messages:
  assumes "trim (userInput_value st) \<noteq> []" and "truthy (userLastPeriodDate st)"
    and "cycle_fetch e = Fulfilled r"
  shows "(\<not> ok r \<longrightarrow>
            fst (calculateCyclePhase h e (userLastPeriodDate st) (userCycleLength st) st) =
              Throw (js ''Failed to calculate cycle phase'') \<and>
            sendMessage h e st =
              (Failed, turn h st (js ''Error: Failed to calculate cycle phase'')
                         [cycle_request e (userLastPeriodDate st) (userCycleLength st)]))
       \<and> (ok r \<and> json r = Fulfilled data \<and> \<not> nullish data \<and>
            \<not> truthy (own_property data (js ''success'')) \<longrightarrow>
            (truthy (own_property data (js ''error'')) \<and>
             ToString h (own_property data (js ''error'')) = Normal s \<longrightarrow>
               sendMessage h e st =
                 (Failed, turn h st (js ''Error: '' @ s)
                            [cycle_request e (userLastPeriodDate st) (userCycleLength st)])) \<and>
            (\<not> truthy (own_property data (js ''error'')) \<longrightarrow>
               sendMessage h e st =
                 (Failed, turn h st (js ''Error: Unknown error occurred'')
                            [cycle_request e (userLastPeriodDate st) (userCycleLength st)])))"
proof (intro conjI impI)
  assume "\<not> ok r"
  with assms(3) show t: "fst (calculateCyclePhase h e (userLastPeriodDate st) (userCycleLength st) st) =
              Throw (js ''Failed to calculate cycle phase'')"
    by (simp add: calculateCyclePhase_not_ok)
  from sendMessage_cycle_throw [OF assms(1,2) t]
  show "sendMessage h e st =
              (Failed, turn h st (js ''Error: Failed to calculate cycle phase'')
                         [cycle_request e (userLastPeriodDate st) (userCycleLength st)])"
    by (simp add: js_append [symmetric])
next
  assume a: "ok r \<and> json r = Fulfilled data \<and> \<not> nullish data \<and>
            \<not> truthy (own_property data (js ''success''))"
    and b: "truthy (own_property data (js ''error'')) \<and>
             ToString h (own_property data (js ''error'')) = Normal s"
  from a b assms(3)
  have "fst (calculateCyclePhase h e (userLastPeriodDate st) (userCycleLength st) st) = Throw s"
    by (simp add: calculateCyclePhase_no_success)
  from sendMessage_cycle_throw [OF assms(1,2) this]
  show "sendMessage h e st =
                 (Failed, turn h st (js ''Error: '' @ s)
                            [cycle_request e (userLastPeriodDate st) (userCycleLength st)])" .
next
  assume a: "ok r \<and> json r = Fulfilled data \<and> \<not> nullish data \<and>
            \<not> truthy (own_property data (js ''success''))"
    and b: "\<not> truthy (own_property data (js ''error''))"
  from a b assms(3)
  have "fst (calculateCyclePhase h e (userLastPeriodDate st) (userCycleLength st) st) =
          Throw (js ''Unknown error occurred'')"
    by (simp add: calculateCyclePhase_no_success)
  from sendMessage_cycle_throw [OF assms(1,2) this]
  show "sendMessage h e st =
                 (Failed, turn h st (js ''Error: Unknown error occurred'')
                            [cycle_request e (userLastPeriodDate st) (userCycleLength st)])"
    by (simp add: js_append [symmetric])
qed

theorem cycle_error_messages_witness:
  "sendMessage example_host (example_env (served False JNull) Unsettled) crampy_page =
     (Failed, turn example_host crampy_page (js ''Error: Failed to calculate cycle phase'')
        [cycle_request (example_env (served False JNull) Unsettled)
           (userLastPeriodDate crampy_page) (userCycleLength crampy_page)])
   \<and> sendMessage example_host
       (example_env (served True (JObj [(js ''success'', JBool False),
                                         (js ''error'', JStr (js ''Invalid date format''))]))
          Unsettled) crampy_page =
     (Failed, turn example_host crampy_page (js ''Error: '' @ js ''Invalid date format'')
        [cycle_request
           (example_env (served True (JObj [(js ''success'', JBool False),
                                            (js ''error'', JStr (js ''Invalid date format''))]))
              Unsettled)
           (userLastPeriodDate crampy_page) (userCycleLength crampy_page)])
   \<and> sendMessage example_host
       (example_env (served True (JObj [(js ''success'', JBool False)])) Unsettled) crampy_page =
     (Failed, turn example_host crampy_page (js ''Error: Unknown error occurred'')
        [cycle_request (example_env (served True (JObj [(js ''success'', JBool False)])) Unsettled)
           (userLastPeriodDate crampy_page) (userCycleLength crampy_page)])"
proof -
  let ?e1 = "example_env (served False JNull) Unsettled"
  let ?d2 = "JObj [(js ''success'', JBool False), (js ''error'', JStr (js ''Invalid date format''))]"
  let ?e2 = "example_env (served True ?d2) Unsettled"
  let ?d3 = "JObj [(js ''success'', JBool False)]"
  let ?e3 = "example_env (served True ?d3) Unsettled"
  have f1: "cycle_fetch ?e1 = Fulfilled \<lparr>ok = False, json = Fulfilled JNull\<rparr>"
    by (simp add: example_env_def served_def)
  have f2: "cycle_fetch ?e2 = Fulfilled \<lparr>ok = True, json = Fulfilled ?d2\<rparr>"
    by (simp add: example_env_def served_def)
  have f3: "cycle_fetch ?e3 = Fulfilled \<lparr>ok = True, json = Fulfilled ?d3\<rparr>"
    by (simp add: example_env_def served_def)
  have p2: "\<not> nullish ?d2" "\<not> truthy (own_property ?d2 (js ''success''))"
    "truthy (own_property ?d2 (js ''error''))"
    "ToString example_host (own_property ?d2 (js ''error'')) = Normal (js ''Invalid date format'')"
    by (simp_all add: nullish_def own_property_def truthy_def js_def)
  have p3: "\<not> nullish ?d3" "\<not> truthy (own_property ?d3 (js ''success''))"
    "\<not> truthy (own_property ?d3 (js ''error''))"
    by (simp_all add: nullish_def own_property_def truthy_def js_def)
  from cycle_error_messages [OF crampy_page_ready f1, of example_host]
  have a: "sendMessage example_host ?e1 crampy_page =
     (Failed, turn example_host crampy_page (js ''Error: Failed to calculate cycle phase'')
        [cycle_request ?e1 (userLastPeriodDate crampy_page) (userCycleLength crampy_page)])"
    by simp
  from cycle_error_messages [OF crampy_page_ready f2, of example_host ?d2 "js ''Invalid date format''"] p2
  have b: "sendMessage example_host ?e2 crampy_page =
     (Failed, turn example_host crampy_page (js ''Error: '' @ js ''Invalid date format'')
        [cycle_request ?e2 (userLastPeriodDate crampy_page) (userCycleLength crampy_page)])"
    by simp
  from cycle_error_messages [OF crampy_page_ready f3, of example_host ?d3] p3
  have c: "sendMessage example_host ?e3 crampy_page =
     (Failed, turn example_host crampy_page (js ''Error: Unknown error occurred'')
        [cycle_request ?e3 (userLastPeriodDate crampy_page) (userCycleLength crampy_page)])"
    by simp
  from a b c show ?thesis by (intro conjI)
qed

text \<open>
  The claim as stated takes an \<^verbatim>\<open>error\<close> that is present to be used: a body with
  \<^verbatim>\<open>success\<close> false and the empty string as \<^verbatim>\<open>error\<close> gives the default
  message, not \<^verbatim>\<open>Error: \<close> followed by the field.
\<close>

theorem empty_error_counterexample:
  "own_property (JObj [(js ''success'', JBool False), (js ''error'', JStr [])]) (js ''error'') = JStr []
   \<and> last (chatContainer (snd (sendMessage example_host
         (example_env (served True (JObj [(js ''success'', JBool False), (js ''error'', JStr [])]))
            Unsettled) crampy_page))) =
       \<lparr>className = js ''message assistant'',
        bubble = TextContent (js ''Error: Unknown error occurred'')\<rparr>
   \<and> js ''Error: Unknown error occurred'' \<noteq> js ''Error: '' @ []"
  by (simp add: example_defs)

text \<open>
  Claim C9, amended. After a completed setup (last-period field not empty) the cycle
  length in the module variable is 28 when the cycle-length field is empty and the
  numeric conversion of the field's text otherwise, with no check of its sign or
  integrality, and the storage holds its string conversion under \<^verbatim>\<open>cycleLength\<close>.
  When the field is empty both are 28; when the field is the decimal numeral of a
  positive integer \<open>n\<close> (up to \<open>2^53\<close>) both are \<open>n\<close>.
\<close>

theorem setup_cycle_length:
  assumes "setupLastPeriod_value st \<noteq> []"
  shows "userCycleLength (completeSetup_click h st) =
           (if setupCycleLength_value st = [] then Fin 28
            else StringToNumber h (setupCycleLength_value st))
       \<and> localStorage (completeSetup_click h st) (js ''cycleLength'') =
           Some (number_to_string h (userCycleLength (completeSetup_click h st)))
       \<and> (setupCycleLength_value st = [] \<longrightarrow>
            userCycleLength (completeSetup_click h st) = Fin 28 \<and>
            localStorage (completeSetup_click h st) (js ''cycleLength'') = Some (js ''28''))
       \<and> (0 < n \<and> n \<le> 2 ^ 53 \<and> setupCycleLength_value st = nat_to_string n \<longrightarrow>
            userCycleLength (completeSetup_click h st) = Fin (of_nat n) \<and>
            localStorage (completeSetup_click h st) (js ''cycleLength'') = Some (nat_to_string n))"
proof -
  have n28: "number_to_string h (Fin 28) = js ''28''"
    by (simp add: number_to_string_def safe_integer_def int_to_string_def js_def digit_def
        nat_to_string.simps)
  have num: "n \<le> 2 ^ 53 \<Longrightarrow> StringToNumber h (nat_to_string n) = Fin (of_nat n)"
    by (simp add: StringToNumber_nat_to_string number_of_def safe_integer_of_nat)
  show ?thesis
    using assms
    by (auto simp: completeSetup_click_def Let_def n28 num number_to_string_of_nat
        nat_to_string_not_Nil)
qed

theorem setup_cycle_length_witness:
  "userCycleLength (completeSetup_click example_host (setup_page (js ''2025-01-01'') [])) = Fin 28
   \<and> localStorage (completeSetup_click example_host (setup_page (js ''2025-01-01'') []))
        (js ''cycleLength'') = Some (js ''28'')
   \<and> userCycleLength (completeSetup_click example_host (setup_page (js ''2025-01-01'') (js ''30'')))
        = Fin 30
   \<and> localStorage (completeSetup_click example_host (setup_page (js ''2025-01-01'') (js ''30'')))
        (js ''cycleLength'') = Some (js ''30'')"
proof -
  have h1: "setupLastPeriod_value (setup_page (js ''2025-01-01'') []) \<noteq> []"
    by (simp add: setup_page_def fresh_page_def js_def)
  have b1: "setupCycleLength_value (setup_page (js ''2025-01-01'') []) = []"
    by (simp add: setup_page_def fresh_page_def)
  have h2: "setupLastPeriod_value (setup_page (js ''2025-01-01'') (js ''30'')) \<noteq> []"
    by (simp add: setup_page_def fresh_page_def js_def)
  have n: "nat_to_string 30 = js ''30''"
    by (simp add: nat_to_string.simps digit_def js_def)
  have b2: "(0::nat) < 30 \<and> (30::nat) \<le> 2 ^ 53 \<and>
            setupCycleLength_value (setup_page (js ''2025-01-01'') (js ''30'')) = nat_to_string 30"
    by (simp add: setup_page_def fresh_page_def n)
  from setup_cycle_length [OF h1, of example_host 1] b1
  have a: "userCycleLength (completeSetup_click example_host (setup_page (js ''2025-01-01'') [])) = Fin 28
   \<and> localStorage (completeSetup_click example_host (setup_page (js ''2025-01-01'') []))
        (js ''cycleLength'') = Some (js ''28'')"
    by blast
  from setup_cycle_length [OF h2, of example_host 30] b2
  have "userCycleLength (completeSetup_click example_host (setup_page (js ''2025-01-01'') (js ''30'')))
        = Fin (of_nat 30)
   \<and> localStorage (completeSetup_click example_host (setup_page (js ''2025-01-01'') (js ''30'')))
        (js ''cycleLength'') = Some (nat_to_string 30)"
    by blast
  with a show ?thesis by (simp add: n)
qed

text \<open>
  The claim as stated promises a positive integer after every completed setup: with
  \<^verbatim>\<open>0\<close> in the cycle-length field the setup completes and the cycle length written to
  the variable and to the storage is 0.
\<close>

theorem zero_cycle_length_counterexample:
  "setupLastPeriod_value (setup_page (js ''2025-01-01'') (js ''0'')) \<noteq> []
   \<and> userCycleLength (completeSetup_click example_host (setup_page (js ''2025-01-01'') (js ''0'')))
        = Fin 0
   \<and> localStorage (completeSetup_click example_host (setup_page (js ''2025-01-01'') (js ''0'')))
        (js ''cycleLength'') = Some (js ''0'')"
  by (simp add: example_defs StringToNumber_def non_decimal_literal_def decimal_literal_def
      is_digit_def exponent_part_def digits_value_def hex_value_def power10_def number_of_def)

text \<open>
  Claim C10. With a setup present, a non-empty trimmed input and the cycle phase
  obtained, when the body of the completion service's answer has a falsy
  \<^verbatim>\<open>choices[0].message.content\<close>, the empty string in particular, the assistant
  message appended is the string \<^verbatim>\<open>I'm sorry \<close>, em dash (U+2014),
  \<^verbatim>\<open> I couldn't generate a response.\<close>, which is not empty and is not the
  content.
\<close>

theorem fallback_on_falsy_content:
  assumes "trim (userInput_value st) \<noteq> []" and "truthy (userLastPeriodDate st)"
    and "cycle_phase_obtained h e cycleInfo info"
    and "chat_fetch e = Fulfilled r" and "json r = Fulfilled data" and "\<not> nullish data"
    and "\<not> truthy (extract_content (own_property data (js ''choices'')))"
  shows "sendMessage h e st =
           (Succeeded,
            turn h st (js ''I'm sorry '' @ [0x2014] @ js '' I couldn't generate a response.'')
              [cycle_request e (userLastPeriodDate st) (userCycleLength st),
               chat_request (prompt info (trim (userInput_value st)))])
       \<and> extract_content (own_property data (js ''choices'')) \<noteq>
           JStr (js ''I'm sorry '' @ [0x2014] @ js '' I couldn't generate a response.'')
       \<and> (js ''I'm sorry '' @ [0x2014] @ js '' I couldn't generate a response.'') \<noteq> []"
proof -
  from assms(4,5,6,7) have "chat_outcome h e = Normal fallback_text"
    by (intro chat_outcome_fallback)
  with sendMessage_after_cycle [OF assms(1,2,3)]
  have "sendMessage h e st =
           (Succeeded,
            turn h st (js ''I'm sorry '' @ [0x2014] @ js '' I couldn't generate a response.'')
              [cycle_request e (userLastPeriodDate st) (userCycleLength st),
               chat_request (prompt info (trim (userInput_value st)))])"
    by (simp add: Let_def fallback_text_def)
  moreover have "truthy (JStr (js ''I'm sorry '' @ [0x2014] @ js '' I couldn't generate a response.''))"
    by (simp add: truthy_def js_def)
  with assms(7) have "extract_content (own_property data (js ''choices'')) \<noteq> JStr (js ''I'm sorry '' @ [0x2014] @ js '' I couldn't generate a response.'')"
    by auto
  moreover have "(js ''I'm sorry '' @ [0x2014] @ js '' I couldn't generate a response.'') \<noteq> []" by (simp add: js_def)
  ultimately show ?thesis by blast
qed

theorem fallback_on_falsy_content_witness:
  "extract_content (own_property (reply_json []) (js ''choices'')) = JStr []
   \<and> sendMessage example_host (example_env (served True day5) (served True (reply_json [])))
       crampy_page =
     (Succeeded,
      turn example_host crampy_page (js ''I'm sorry '' @ [0x2014] @ js '' I couldn't generate a response.'')
        [cycle_request (example_env (served True day5) (served True (reply_json [])))
           (userLastPeriodDate crampy_page) (userCycleLength crampy_page),
         chat_request (prompt (js ''The user is currently on cycle day 5, in the menstrual.'')
                         (trim (userInput_value crampy_page)))])"
proof -
  let ?r = "\<lparr>ok = True, json = Fulfilled (reply_json [])\<rparr>"
  have f: "chat_fetch (example_env (served True day5) (served True (reply_json []))) = Fulfilled ?r"
    by (simp add: example_env_def served_def)
  have j: "json ?r = Fulfilled (reply_json [])" by simp
  have n: "\<not> nullish (reply_json [])" by (simp add: nullish_def reply_json_def)
  have c: "\<not> truthy (extract_content (own_property (reply_json []) (js ''choices'')))"
    by (simp add: extract_reply_json truthy_def)
  from fallback_on_falsy_content [OF crampy_page_ready day5_obtained f j n c] extract_reply_json [of "[]"]
  show ?thesis by blast
qed

end
